theory Spec2Isabelle
  imports Main "HOL-Library.Word"
begin

section \<open>The enrichment pipeline of gitLore's repository fetcher\<close>

text \<open>
  A shallow embedding of the Go program that lists GitHub repositories, enriches every
  record with four further requests and folds the records into a summary. The
  repository holds two revisions of the program. The model follows the later one, whose
  jobs make four calls (\<open>fetchLastCommit\<close>, \<open>fetchCommitActivity52W\<close>, \<open>fetchLanguages\<close>,
  \<open>fetchContributors\<close>); the two enrichers of the earlier one, in the file
  \<open>fetch_repos.go\<close>, are modelled beside them with the suffix \<open>_v1\<close> where the name is
  the same.

  Conventions of the embedding:
  \<^item> Go's \<open>int\<close> is a 64-bit word, so sums wrap as they do in the program; a status
    code, which is only compared, is an \<open>int\<close>; a length (\<open>len\<close>) is a \<open>nat\<close>.
  \<^item> A Go string is its bytes: \<open>string\<close> is a list of 8-bit characters, \<open>length\<close> is
    Go's \<open>len\<close> and \<open>take n\<close> is the slice \<open>[:n]\<close>.
  \<^item> A slice is a list and a \<open>nil\<close> slice is the empty list (the program only takes
    \<open>len\<close> of the slices in question); a map read from JSON is the list of its
    entries, one per key, so that \<open>len\<close> is \<open>length\<close>.
  \<^item> A Go \<open>error\<close> result is an \<open>error option\<close>, \<open>None\<close> for \<open>nil\<close>.
  \<^item> Everything a function does to the outside is appended to a trace of events, and
    the network is a parameter that answers a request from the trace so far.
\<close>

subsection \<open>Data\<close>

type_synonym go_int = "64 word"

record commitListItem =
  SHA :: string
  Commit_Author_Date :: string
  Commit_Message :: string

record weeklyStat =
  Total :: go_int
  Week :: "64 word"
  Days :: "go_int list"

record contributor =
  Login :: string
  Contributions :: go_int

record ghRepo =
  gh_Name :: string
  gh_FullName :: string
  gh_Description :: string
  gh_Private :: bool
  gh_Fork :: bool
  gh_Archived :: bool
  gh_Disabled :: bool
  gh_Language :: string
  gh_SizeKB :: go_int
  gh_StargazersCount :: go_int
  gh_WatchersCount :: go_int
  gh_ForksCount :: go_int
  gh_OpenIssuesCount :: go_int
  gh_DefaultBranch :: string
  gh_CreatedAt :: string
  gh_UpdatedAt :: string
  gh_PushedAt :: string
  gh_HTMLURL :: string
  gh_Homepage :: string
  gh_Topics :: "string list"
  gh_HasIssues :: bool
  gh_HasProjects :: bool
  gh_HasWiki :: bool
  gh_HasPages :: bool
  gh_HasDownloads :: bool
  gh_Owner_Login :: string
  gh_Owner_Type :: string
  gh_License_Key :: string
  gh_License_Name :: string
  gh_License_SPDX :: string

record outRepo =
  Name :: string
  FullName :: string
  Description :: string
  Private :: bool
  Fork :: bool
  Archived :: bool
  Disabled :: bool
  Language :: string
  Topics :: "string list"
  Homepage :: string
  DefaultBranch :: string
  SizeKB :: go_int
  SizeReadable :: string
  Stars :: go_int
  Forks :: go_int
  Watchers :: go_int
  OpenIssues :: go_int
  CreatedAt :: string
  UpdatedAt :: string
  PushedAt :: string
  HTMLURL :: string
  OwnerLogin :: string
  OwnerType :: string
  License :: string
  HasIssues :: bool
  HasProjects :: bool
  HasWiki :: bool
  HasPages :: bool
  HasDownloads :: bool
  LastCommitAt :: string
  LastCommitMessage :: string
  WeeklyCommits52W :: "go_int list"
  WeeklyStats52W :: "weeklyStat list"
  LanguageBreakdown :: "(string \<times> go_int) list"
  TopContributors :: "contributor list"
  ContributorCount :: go_int
  TotalCommits :: go_int
  StatsCachePending :: bool

text \<open>
  The summary. Its anonymous nested structs are flattened: the Go field
  \<open>sum.RepoCounts.Total\<close> is \<open>RepoCounts_Total\<close>, and so on. The three frequency maps
  are partial functions; reading a missing key gives 0, as a Go map does.
\<close>

record summary =
  GeneratedAt :: string
  RepoCounts_Total :: go_int
  RepoCounts_Public :: go_int
  RepoCounts_Private :: go_int
  RepoCounts_Archived :: go_int
  RepoCounts_Forks :: go_int
  RepoCounts_Org :: go_int
  RepoCounts_User :: go_int
  Size_TotalKB :: go_int
  Size_Human :: string
  Engagement_TotalStars :: go_int
  Engagement_TotalForks :: go_int
  Engagement_TotalWatchers :: go_int
  Engagement_TotalCommits :: go_int
  Languages :: "string \<rightharpoonup> go_int"
  Topics_count :: "string \<rightharpoonup> go_int"
  Licenses :: "string \<rightharpoonup> go_int"
  Activity_MostRecentUpdate :: string
  Activity_MostRecentPush :: string
  Activity_OldestCreated :: string
  Activity_OldestUpdate :: string
  Enrichment_ReposWithLastCommit :: go_int
  Enrichment_ReposWithStats52W :: go_int
  Enrichment_ReposWithLanguages :: go_int
  Enrichment_ReposWithContributors :: go_int
  Enrichment_ReposStatsPending :: go_int

subsection \<open>Errors, events and the outside world\<close>

text \<open>
  \<open>Errorf fmt n\<close> is the error \<open>fmt.Errorf(fmt, n)\<close> the program builds from a status
  code, \<open>Errorf_body fmt n b\<close> the error \<open>fmt.Errorf(fmt, n, string(b))\<close> the earlier
  revision builds from a status code and a body; \<open>LibError msg\<close> is an error handed up
  from \<open>net/http\<close>, \<open>io\<close> or \<open>encoding/json\<close>.
\<close>

datatype error = Errorf string int | Errorf_body string int string | LibError string

text \<open>
  What the program does to the outside, in the order it does it: a call of \<open>doGET\<close>
  (URL and bearer token), a \<open>time.Sleep\<close> (in milliseconds) and the progress line
  printed by a worker (the two numbers it prints). The worker's loop has no other
  statement that prints or logs.
\<close>

datatype event = Get string string | Sleep nat | Progress nat nat

text \<open>
  The four ways the body of \<open>doGET\<close> can go: \<open>http.NewRequest\<close> fails, \<open>client.Do\<close>
  fails, \<open>io.ReadAll\<close> fails after the status line has arrived, or the response arrives
  whole with its status code and body.
\<close>

datatype http_outcome =
  NewRequestFails error
| DoFails error
| ReadAllFails int error
| Answers int string

text \<open>
  The libraries and the network are parameters of the model. \<open>client\<close> gives the
  outcome of a request from the events so far, the URL and the token; the four
  \<open>unmarshal\<close> functions are \<open>json.Unmarshal\<close> at the four target types;
  \<open>time_Parse s\<close> is \<open>time.Parse(time.RFC3339, s)\<close>, \<open>None\<close> when it returns an
  error; \<open>time_Format t\<close> is \<open>t.UTC().Format(time.RFC3339)\<close>. \<open>humanSizeFromKB\<close> is
  the program's own function of that name: it computes with floating-point logarithms
  and is kept as a parameter, since no statement below depends on the text it prints.
\<close>

text \<open>
  A \<open>time.Time\<close> is represented by its instant, an integer: the program
  only compares times with \<open>After\<close> and \<open>Before\<close> and prints them in UTC, and all three
  depend on the instant alone.
\<close>

type_synonym go_time = int

record deps =
  client :: "event list \<Rightarrow> string \<Rightarrow> string \<Rightarrow> http_outcome"
  unmarshal_commits :: "string \<Rightarrow> error + commitListItem list"
  unmarshal_weeks :: "string \<Rightarrow> error + weeklyStat list"
  unmarshal_langs :: "string \<Rightarrow> error + (string \<times> go_int) list"
  unmarshal_contribs :: "string \<Rightarrow> error + contributor list"
  time_Parse :: "string \<Rightarrow> go_time option"
  time_Format :: "go_time \<Rightarrow> string"
  humanSizeFromKB :: "go_int \<Rightarrow> string"

subsection \<open>The field enrichers\<close>

definition doGET ::
  "deps \<Rightarrow> event list \<Rightarrow> string \<Rightarrow> string \<Rightarrow> (int \<times> string \<times> error option) \<times> event list" where
  "doGET E tr url token =
     ((case client E tr url token of
         NewRequestFails e \<Rightarrow> (0, [], Some e)
       | DoFails e \<Rightarrow> (0, [], Some e)
       | ReadAllFails status e \<Rightarrow> (status, [], Some e)
       | Answers status body \<Rightarrow> (status, body, None)),
      tr @ [Get url token])"

definition commits_url :: "string \<Rightarrow> string" where
  "commits_url fullName = ''https://api.github.com/repos/'' @ fullName @ ''/commits?per_page=1''"

definition fetchLastCommit ::
  "deps \<Rightarrow> string \<Rightarrow> string \<Rightarrow> event list \<Rightarrow> (string \<times> string \<times> error option) \<times> event list" where
  "fetchLastCommit E token fullName tr =
     (case doGET E tr (commits_url fullName) token of
        ((status, body, err), tr') \<Rightarrow>
          (case err of
             Some e \<Rightarrow> (([], [], Some e), tr')
           | None \<Rightarrow>
               if status < 200 \<or> status \<ge> 300
               then (([], [], Some (Errorf ''commits list error %d'' status)), tr')
               else (case unmarshal_commits E body of
                       Inl e \<Rightarrow> (([], [], Some e), tr')
                     | Inr commits \<Rightarrow>
                         (case commits of
                            [] \<Rightarrow> (([], [], None), tr')
                          | c # _ \<Rightarrow>
                              let msg = Commit_Message c;
                                  msg = (if length msg > 100 then take 100 msg @ ''...'' else msg)
                              in ((Commit_Author_Date c, msg, None), tr')))))"

definition activity_url :: "string \<Rightarrow> string" where
  "activity_url fullName = ''https://api.github.com/repos/'' @ fullName @ ''/stats/commit_activity''"

definition backoffs :: "nat list" where
  "backoffs = [700, 1200, 2000, 3000]"

text \<open>
  The retry loop of \<open>fetchCommitActivity52W\<close>, from the value \<open>attempt\<close> of its counter
  on. The last line is the \<open>return\<close> after the loop.
\<close>

function activity_loop ::
  "deps \<Rightarrow> string \<Rightarrow> string \<Rightarrow> nat \<Rightarrow> event list
     \<Rightarrow> (weeklyStat list \<times> bool \<times> error option) \<times> event list" where
  "activity_loop E token url attempt tr =
     (if attempt \<le> length backoffs then
        (case doGET E tr url token of
           ((status, body, e), tr') \<Rightarrow>
             (case e of
                Some err \<Rightarrow> (([], False, Some err), tr')
              | None \<Rightarrow>
                  if status = 202 then
                    (if attempt = length backoffs then (([], True, None), tr')
                     else activity_loop E token url (attempt + 1)
                            (tr' @ [Sleep (backoffs ! attempt)]))
                  else if status < 200 \<or> status \<ge> 300
                  then (([], False, Some (Errorf ''commit_activity error %d'' status)), tr')
                  else (case unmarshal_weeks E body of
                          Inl err \<Rightarrow> (([], False, Some err), tr')
                        | Inr weeks \<Rightarrow> ((weeks, False, None), tr'))))
      else (([], True, None), tr))"
  by pat_completeness auto
termination
  by (relation "measure (\<lambda>(E, token, url, attempt, tr). Suc (length backoffs) - attempt)") auto

definition fetchCommitActivity52W ::
  "deps \<Rightarrow> string \<Rightarrow> string \<Rightarrow> event list
     \<Rightarrow> (weeklyStat list \<times> bool \<times> error option) \<times> event list" where
  "fetchCommitActivity52W E token fullName tr = activity_loop E token (activity_url fullName) 0 tr"

definition languages_url :: "string \<Rightarrow> string" where
  "languages_url fullName = ''https://api.github.com/repos/'' @ fullName @ ''/languages''"

definition fetchLanguages ::
  "deps \<Rightarrow> string \<Rightarrow> string \<Rightarrow> event list
     \<Rightarrow> ((string \<times> go_int) list \<times> error option) \<times> event list" where
  "fetchLanguages E token fullName tr =
     (case doGET E tr (languages_url fullName) token of
        ((status, body, err), tr') \<Rightarrow>
          (case err of
             Some e \<Rightarrow> (([], Some e), tr')
           | None \<Rightarrow>
               if status < 200 \<or> status \<ge> 300
               then (([], Some (Errorf ''languages error %d'' status)), tr')
               else (case unmarshal_langs E body of
                       Inl e \<Rightarrow> (([], Some e), tr')
                     | Inr langs \<Rightarrow> ((langs, None), tr'))))"

definition contributors_url :: "string \<Rightarrow> string" where
  "contributors_url fullName =
     ''https://api.github.com/repos/'' @ fullName @ ''/contributors?per_page=10''"

definition fetchContributors ::
  "deps \<Rightarrow> string \<Rightarrow> string \<Rightarrow> event list
     \<Rightarrow> (contributor list \<times> go_int \<times> error option) \<times> event list" where
  "fetchContributors E token fullName tr =
     (case doGET E tr (contributors_url fullName) token of
        ((status, body, err), tr') \<Rightarrow>
          (case err of
             Some e \<Rightarrow> (([], 0, Some e), tr')
           | None \<Rightarrow>
               if status < 200 \<or> status \<ge> 300
               then (([], 0, Some (Errorf ''contributors error %d'' status)), tr')
               else (case unmarshal_contribs E body of
                       Inl e \<Rightarrow> (([], 0, Some e), tr')
                     | Inr contribs \<Rightarrow>
                         let total = (of_nat (length contribs) :: go_int);
                             total = (if length contribs = 10 then 10 else total)
                         in ((contribs, total, None), tr'))))"

subsection \<open>The enrichers of the earlier revision\<close>

text \<open>
  \<open>fetchLastCommitAt\<close> returns the date alone, and the earlier \<open>fetchCommitActivity52W\<close>
  returns the weekly totals instead of the decoded structs; both put the body into the
  error they build from a status code. Their item types have fewer fields than the
  later ones; the decoders are the same parameters, read at the fields that exist.
\<close>

definition fetchLastCommitAt ::
  "deps \<Rightarrow> string \<Rightarrow> string \<Rightarrow> event list \<Rightarrow> (string \<times> error option) \<times> event list" where
  "fetchLastCommitAt E token fullName tr =
     (case doGET E tr (commits_url fullName) token of
        ((status, body, err), tr') \<Rightarrow>
          (case err of
             Some e \<Rightarrow> (([], Some e), tr')
           | None \<Rightarrow>
               if status < 200 \<or> status \<ge> 300
               then (([], Some (Errorf_body ''commits list error %d: %s'' status body)), tr')
               else (case unmarshal_commits E body of
                       Inl e \<Rightarrow> (([], Some e), tr')
                     | Inr commits \<Rightarrow>
                         (case commits of
                            [] \<Rightarrow> (([], None), tr')
                          | c # _ \<Rightarrow> ((Commit_Author_Date c, None), tr')))))"

function activity_loop_v1 ::
  "deps \<Rightarrow> string \<Rightarrow> string \<Rightarrow> nat \<Rightarrow> event list
     \<Rightarrow> (go_int list \<times> bool \<times> error option) \<times> event list" where
  "activity_loop_v1 E token url attempt tr =
     (if attempt \<le> length backoffs then
        (case doGET E tr url token of
           ((status, body, e), tr') \<Rightarrow>
             (case e of
                Some err \<Rightarrow> (([], False, Some err), tr')
              | None \<Rightarrow>
                  if status = 202 then
                    (if attempt = length backoffs then (([], True, None), tr')
                     else activity_loop_v1 E token url (attempt + 1)
                            (tr' @ [Sleep (backoffs ! attempt)]))
                  else if status < 200 \<or> status \<ge> 300
                  then (([], False,
                         Some (Errorf_body ''commit_activity error %d: %s'' status body)), tr')
                  else (case unmarshal_weeks E body of
                          Inl err \<Rightarrow> (([], False, Some err), tr')
                        | Inr weeks \<Rightarrow> ((map weeklyStat.Total weeks, False, None), tr'))))
      else (([], True, None), tr))"
  by pat_completeness auto
termination
  by (relation "measure (\<lambda>(E, token, url, attempt, tr). Suc (length backoffs) - attempt)") auto

definition fetchCommitActivity52W_v1 ::
  "deps \<Rightarrow> string \<Rightarrow> string \<Rightarrow> event list
     \<Rightarrow> (go_int list \<times> bool \<times> error option) \<times> event list" where
  "fetchCommitActivity52W_v1 E token fullName tr =
     activity_loop_v1 E token (activity_url fullName) 0 tr"

subsection \<open>The record list before enrichment\<close>

text \<open>
  The composite literal with which \<open>main\<close> builds one output record from a listed
  repository. The nine enrichment fields are not named in it, so they have their zero
  values.
\<close>

definition base_out :: "deps \<Rightarrow> ghRepo \<Rightarrow> outRepo" where
  "base_out E r =
     \<lparr> Name = gh_Name r,
       FullName = gh_FullName r,
       Description = gh_Description r,
       Private = gh_Private r,
       Fork = gh_Fork r,
       Archived = gh_Archived r,
       Disabled = gh_Disabled r,
       Language = gh_Language r,
       Topics = gh_Topics r,
       Homepage = gh_Homepage r,
       DefaultBranch = gh_DefaultBranch r,
       SizeKB = gh_SizeKB r,
       SizeReadable = humanSizeFromKB E (gh_SizeKB r),
       Stars = gh_StargazersCount r,
       Forks = gh_ForksCount r,
       Watchers = gh_WatchersCount r,
       OpenIssues = gh_OpenIssuesCount r,
       CreatedAt = gh_CreatedAt r,
       UpdatedAt = gh_UpdatedAt r,
       PushedAt = gh_PushedAt r,
       HTMLURL = gh_HTMLURL r,
       OwnerLogin = gh_Owner_Login r,
       OwnerType = gh_Owner_Type r,
       License = (if gh_License_Key r \<noteq> [] then gh_License_Name r else []),
       HasIssues = gh_HasIssues r,
       HasProjects = gh_HasProjects r,
       HasWiki = gh_HasWiki r,
       HasPages = gh_HasPages r,
       HasDownloads = gh_HasDownloads r,
       LastCommitAt = [],
       LastCommitMessage = [],
       WeeklyCommits52W = [],
       WeeklyStats52W = [],
       LanguageBreakdown = [],
       TopContributors = [],
       ContributorCount = 0,
       TotalCommits = 0,
       StatsCachePending = False \<rparr>"

subsection \<open>The enrichment job\<close>

text \<open>
  What a worker writes into its record after each of the four calls, as a function of
  the call's results: the four \<open>if e == nil { ... }\<close> blocks of the worker's loop. None
  of them has an \<open>else\<close> branch.
\<close>

definition store_last_commit :: "string \<times> string \<times> error option \<Rightarrow> outRepo \<Rightarrow> outRepo" where
  "store_last_commit res r =
     (case res of (lastDate, lastMsg, e) \<Rightarrow>
        if e = None then r\<lparr>LastCommitAt := lastDate, LastCommitMessage := lastMsg\<rparr> else r)"

definition store_activity :: "weeklyStat list \<times> bool \<times> error option \<Rightarrow> outRepo \<Rightarrow> outRepo" where
  "store_activity res r =
     (case res of (weeks, pending, e2) \<Rightarrow>
        if e2 = None
        then r\<lparr>WeeklyStats52W := weeks,
               StatsCachePending := pending,
               WeeklyCommits52W := map weeklyStat.Total weeks,
               TotalCommits := foldl (\<lambda>totalCommits w. totalCommits + weeklyStat.Total w) 0 weeks\<rparr>
        else r)"

definition store_languages :: "(string \<times> go_int) list \<times> error option \<Rightarrow> outRepo \<Rightarrow> outRepo" where
  "store_languages res r =
     (case res of (langs, e3) \<Rightarrow>
        if e3 = None \<and> length langs > 0 then r\<lparr>LanguageBreakdown := langs\<rparr> else r)"

definition store_contributors ::
  "contributor list \<times> go_int \<times> error option \<Rightarrow> outRepo \<Rightarrow> outRepo" where
  "store_contributors res r =
     (case res of (contribs, count, e4) \<Rightarrow>
        if e4 = None then r\<lparr>TopContributors := contribs, ContributorCount := count\<rparr> else r)"

text \<open>
  The four steps of one job on the record \<open>r = out[i]\<close>, run by one worker without
  interruption: every call is made with the trace the previous one left.
\<close>

definition enrich :: "deps \<Rightarrow> string \<Rightarrow> outRepo \<Rightarrow> event list \<Rightarrow> outRepo \<times> event list" where
  "enrich E token r tr =
     (let full = FullName r in
      case fetchLastCommit E token full tr of (res1, tr1) \<Rightarrow>
      let r1 = store_last_commit res1 r in
      case fetchCommitActivity52W E token full tr1 of (res2, tr2) \<Rightarrow>
      let r2 = store_activity res2 r1 in
      case fetchLanguages E token full tr2 of (res3, tr3) \<Rightarrow>
      let r3 = store_languages res3 r2 in
      case fetchContributors E token full tr3 of (res4, tr4) \<Rightarrow>
      let r4 = store_contributors res4 r3 in
      (r4, tr4))"

text \<open>
  The state a worker's loop body changes: the shared slice \<open>out\<close>, the shared counter
  \<open>completed\<close> and the trace. \<open>job\<close> is one iteration of \<open>for i := range jobs\<close>, with the
  progress line and the pacing sleep at its end; \<open>total_n\<close> is the program's \<open>total\<close>,
  the length of \<open>out\<close>. An index outside the slice panics (\<open>None\<close>).
\<close>

record pool_state =
  out :: "outRepo list"
  completed :: nat
  trace :: "event list"

definition job :: "deps \<Rightarrow> string \<Rightarrow> nat \<Rightarrow> nat \<Rightarrow> pool_state \<Rightarrow> pool_state option" where
  "job E token total_n i st =
     (if i < length (out st) then
        (case enrich E token (out st ! i) (trace st) of (r', tr') \<Rightarrow>
           let completed' = completed st + 1;
               tr'' = (if completed' mod 5 = 0 \<or> completed' = total_n
                       then tr' @ [Progress completed' total_n] else tr')
           in Some \<lparr> out = (out st)[i := r'], completed = completed', trace = tr'' @ [Sleep 100] \<rparr>)
      else None)"

subsection \<open>The worker pool\<close>

text \<open>
  For the statements about concurrency the results of the four calls are fixed per
  record, and a run of the pool is the sequence of the writes its workers perform. A
  write is a pair \<open>(i, k)\<close>: the worker holding job \<open>i\<close> performs the \<open>k\<close>-th of the four
  stores on \<open>out[i]\<close>.
\<close>

record results =
  res_last_commit :: "string \<times> string \<times> error option"
  res_activity :: "weeklyStat list \<times> bool \<times> error option"
  res_languages :: "(string \<times> go_int) list \<times> error option"
  res_contributors :: "contributor list \<times> go_int \<times> error option"

definition job_writes :: "results \<Rightarrow> (outRepo \<Rightarrow> outRepo) list" where
  "job_writes x =
     [store_last_commit (res_last_commit x),
      store_activity (res_activity x),
      store_languages (res_languages x),
      store_contributors (res_contributors x)]"

fun apply_writes :: "(nat \<Rightarrow> results) \<Rightarrow> (nat \<times> nat) list \<Rightarrow> outRepo list \<Rightarrow> outRepo list option" where
  "apply_writes res [] rs = Some rs"
| "apply_writes res ((i, k) # s) rs =
     (if i < length rs \<and> k < 4
      then apply_writes res s (rs[i := (job_writes (res i) ! k) (rs ! i)])
      else None)"

text \<open>
  A worker that takes the jobs \<open>q\<close> from the channel, in this order, performs the four
  writes of each in turn. A run of the pool interleaves the write sequences of its
  workers: at each step some worker \<open>w\<close> performs its next write. \<open>interleaving qs s\<close>
  holds when \<open>s\<close> is such an interleaving of the sequences \<open>qs\<close>.
\<close>

definition job_steps :: "nat \<Rightarrow> (nat \<times> nat) list" where
  "job_steps i = [(i, 0), (i, 1), (i, 2), (i, 3)]"

definition worker_writes :: "nat list \<Rightarrow> (nat \<times> nat) list" where
  "worker_writes q = concat (map job_steps q)"

fun interleaving :: "'a list list \<Rightarrow> 'a list \<Rightarrow> bool" where
  "interleaving qs [] = list_all (\<lambda>q. q = []) qs"
| "interleaving qs (x # s) =
     list_ex (\<lambda>w. case qs ! w of
                      [] \<Rightarrow> False
                    | y # q' \<Rightarrow> y = x \<and> interleaving (qs[w := q']) s)
       [0..<length qs]"

text \<open>
  \<open>pool_run n qs s\<close>: the pool has \<open>length qs\<close> workers, worker \<open>w\<close> received the jobs
  \<open>qs ! w\<close> from the channel, every index below \<open>n\<close> was received exactly once, and \<open>s\<close>
  is the order in which the writes happened.
\<close>

definition pool_run :: "nat \<Rightarrow> nat list list \<Rightarrow> (nat \<times> nat) list \<Rightarrow> bool" where
  "pool_run n qs s \<longleftrightarrow>
     distinct (concat qs) \<and> set (concat qs) = {0..<n} \<and> interleaving (map worker_writes qs) s"

subsection \<open>The aggregator\<close>

text \<open>
  \<open>bump m k\<close> is the Go statement \<open>m[k]++\<close> on a map of counters and \<open>map_get m k\<close> the
  expression \<open>m[k]\<close>: a key that is not in the map reads as 0.
\<close>

definition map_get :: "(string \<rightharpoonup> go_int) \<Rightarrow> string \<Rightarrow> go_int" where
  "map_get m k = (case m k of None \<Rightarrow> 0 | Some c \<Rightarrow> c)"

definition bump :: "(string \<rightharpoonup> go_int) \<Rightarrow> string \<Rightarrow> (string \<rightharpoonup> go_int)" where
  "bump m k = m(k \<mapsto> map_get m k + 1)"

text \<open>
  The variables of the summary loop: the summary under construction (\<open>sum\<close> in the
  program) and the four times with their four flags.
\<close>

record agg_state =
  summ :: summary
  newestUpdate :: go_time
  newestPush :: go_time
  oldestCreated :: go_time
  oldestUpdate :: go_time
  hasUpdate :: bool
  hasPush :: bool
  hasCreated :: bool
  hasOldUpdate :: bool

text \<open>
  The loop body in three parts, in the program's order. In the first and the third every
  statement changes a field of its own from that field's old value, so the part is
  written as one record update.
\<close>

definition count_repo :: "outRepo \<Rightarrow> summary \<Rightarrow> summary" where
  "count_repo r s =
     s\<lparr> RepoCounts_Total := RepoCounts_Total s + 1,
        RepoCounts_Private := (if Private r then RepoCounts_Private s + 1 else RepoCounts_Private s),
        RepoCounts_Public := (if Private r then RepoCounts_Public s else RepoCounts_Public s + 1),
        RepoCounts_Archived := (if Archived r then RepoCounts_Archived s + 1 else RepoCounts_Archived s),
        RepoCounts_Forks := (if Fork r then RepoCounts_Forks s + 1 else RepoCounts_Forks s),
        RepoCounts_Org :=
          (if OwnerType r = ''Organization'' then RepoCounts_Org s + 1 else RepoCounts_Org s),
        RepoCounts_User :=
          (if OwnerType r = ''Organization'' then RepoCounts_User s else RepoCounts_User s + 1),
        Size_TotalKB := Size_TotalKB s + SizeKB r,
        Engagement_TotalStars := Engagement_TotalStars s + Stars r,
        Engagement_TotalForks := Engagement_TotalForks s + Forks r,
        Engagement_TotalWatchers := Engagement_TotalWatchers s + Watchers r,
        Engagement_TotalCommits := Engagement_TotalCommits s + TotalCommits r,
        Languages := (if Language r \<noteq> [] then bump (Languages s) (Language r) else Languages s),
        Topics_count := foldl bump (Topics_count s) (Topics r),
        Licenses := (if License r \<noteq> [] then bump (Licenses s) (License r) else Licenses s) \<rparr>"

definition track_times :: "deps \<Rightarrow> outRepo \<Rightarrow> agg_state \<Rightarrow> agg_state" where
  "track_times E r a =
     (let a = (case time_Parse E (UpdatedAt r) of
                 None \<Rightarrow> a
               | Some t \<Rightarrow>
                   let a = (if \<not> hasUpdate a \<or> t > newestUpdate a
                            then a\<lparr>newestUpdate := t, hasUpdate := True\<rparr> else a);
                       a = (if \<not> hasOldUpdate a \<or> t < oldestUpdate a
                            then a\<lparr>oldestUpdate := t, hasOldUpdate := True\<rparr> else a)
                   in a);
          a = (case time_Parse E (PushedAt r) of
                 None \<Rightarrow> a
               | Some t \<Rightarrow>
                   if \<not> hasPush a \<or> t > newestPush a
                   then a\<lparr>newestPush := t, hasPush := True\<rparr> else a);
          a = (case time_Parse E (CreatedAt r) of
                 None \<Rightarrow> a
               | Some t \<Rightarrow>
                   if \<not> hasCreated a \<or> t < oldestCreated a
                   then a\<lparr>oldestCreated := t, hasCreated := True\<rparr> else a)
      in a)"

definition count_enrichment :: "outRepo \<Rightarrow> summary \<Rightarrow> summary" where
  "count_enrichment r s =
     s\<lparr> Enrichment_ReposWithLastCommit :=
          (if LastCommitAt r \<noteq> [] then Enrichment_ReposWithLastCommit s + 1
           else Enrichment_ReposWithLastCommit s),
        Enrichment_ReposWithStats52W :=
          (if length (WeeklyCommits52W r) > 0 then Enrichment_ReposWithStats52W s + 1
           else Enrichment_ReposWithStats52W s),
        Enrichment_ReposWithLanguages :=
          (if length (LanguageBreakdown r) > 0 then Enrichment_ReposWithLanguages s + 1
           else Enrichment_ReposWithLanguages s),
        Enrichment_ReposWithContributors :=
          (if length (TopContributors r) > 0 then Enrichment_ReposWithContributors s + 1
           else Enrichment_ReposWithContributors s),
        Enrichment_ReposStatsPending :=
          (if StatsCachePending r then Enrichment_ReposStatsPending s + 1
           else Enrichment_ReposStatsPending s) \<rparr>"

definition agg_step :: "deps \<Rightarrow> agg_state \<Rightarrow> outRepo \<Rightarrow> agg_state" where
  "agg_step E a r =
     (let a = a\<lparr>summ := count_repo r (summ a)\<rparr>;
          a = track_times E r a;
          a = a\<lparr>summ := count_enrichment r (summ a)\<rparr>
      in a)"

text \<open>
  The variables before the loop: the zero summary with \<open>GeneratedAt\<close> set from the clock
  (\<open>now\<close> is the instant \<open>time.Now()\<close> returns) and the three maps made, the zero time in
  the four time variables and the four flags false.
\<close>

definition agg_init :: "deps \<Rightarrow> go_time \<Rightarrow> agg_state" where
  "agg_init E now =
     \<lparr> summ =
         \<lparr> GeneratedAt = time_Format E now,
           RepoCounts_Total = 0, RepoCounts_Public = 0, RepoCounts_Private = 0,
           RepoCounts_Archived = 0, RepoCounts_Forks = 0, RepoCounts_Org = 0,
           RepoCounts_User = 0,
           Size_TotalKB = 0, Size_Human = [],
           Engagement_TotalStars = 0, Engagement_TotalForks = 0,
           Engagement_TotalWatchers = 0, Engagement_TotalCommits = 0,
           Languages = Map.empty, Topics_count = Map.empty, Licenses = Map.empty,
           Activity_MostRecentUpdate = [], Activity_MostRecentPush = [],
           Activity_OldestCreated = [], Activity_OldestUpdate = [],
           Enrichment_ReposWithLastCommit = 0, Enrichment_ReposWithStats52W = 0,
           Enrichment_ReposWithLanguages = 0, Enrichment_ReposWithContributors = 0,
           Enrichment_ReposStatsPending = 0 \<rparr>,
       newestUpdate = 0, newestPush = 0, oldestCreated = 0, oldestUpdate = 0,
       hasUpdate = False, hasPush = False, hasCreated = False, hasOldUpdate = False \<rparr>"

text \<open>The statements after the loop.\<close>

definition agg_finish :: "deps \<Rightarrow> agg_state \<Rightarrow> summary" where
  "agg_finish E a =
     (summ a)\<lparr>
        Size_Human := humanSizeFromKB E (Size_TotalKB (summ a)),
        Activity_MostRecentUpdate :=
          (if hasUpdate a then time_Format E (newestUpdate a)
           else Activity_MostRecentUpdate (summ a)),
        Activity_MostRecentPush :=
          (if hasPush a then time_Format E (newestPush a)
           else Activity_MostRecentPush (summ a)),
        Activity_OldestCreated :=
          (if hasCreated a then time_Format E (oldestCreated a)
           else Activity_OldestCreated (summ a)),
        Activity_OldestUpdate :=
          (if hasOldUpdate a then time_Format E (oldestUpdate a)
           else Activity_OldestUpdate (summ a)) \<rparr>"

definition aggregate :: "deps \<Rightarrow> go_time \<Rightarrow> outRepo list \<Rightarrow> summary" where
  "aggregate E now rs = agg_finish E (foldl (agg_step E) (agg_init E now) rs)"

subsection \<open>Traces of the retry loop and sample environments\<close>

text \<open>
  The events of \<open>k\<close> rounds of the retry loop that found the statistics still being
  computed, from round \<open>a\<close> on: each round is a request followed by the sleep the backoff
  table gives for it.
\<close>

definition retry_events :: "string \<Rightarrow> string \<Rightarrow> nat \<Rightarrow> nat \<Rightarrow> event list" where
  "retry_events url token a k =
     concat (map (\<lambda>i. [Get url token, Sleep (backoffs ! i)]) [a..<a + k])"

text \<open>
  Environments for the examples. \<open>answers_in_turn os\<close> is a server that gives the
  outcomes \<open>os\<close> one after the other, whatever is requested, and is unreachable after
  that. \<open>decode_table t\<close> decodes the bodies listed in \<open>t\<close> to the values listed with them
  and rejects every other body; an example lists the bodies it uses with the values
  \<open>encoding/json\<close> gives them. \<open>offline_deps\<close> has no network and decodes nothing.
\<close>

definition answers_in_turn :: "http_outcome list \<Rightarrow> event list \<Rightarrow> string \<Rightarrow> string \<Rightarrow> http_outcome" where
  "answers_in_turn os tr url token =
     (let n = length (filter (\<lambda>e. case e of Get _ _ \<Rightarrow> True | _ \<Rightarrow> False) tr)
      in if n < length os then os ! n else DoFails (LibError ''unreachable''))"

definition decode_table :: "(string \<times> 'a) list \<Rightarrow> string \<Rightarrow> error + 'a" where
  "decode_table t body =
     (case map_of t body of
        Some v \<Rightarrow> Inr v
      | None \<Rightarrow> Inl (LibError ''cannot decode''))"

definition offline_deps :: deps where
  "offline_deps =
     \<lparr> client = answers_in_turn [],
       unmarshal_commits = decode_table [],
       unmarshal_weeks = decode_table [],
       unmarshal_langs = decode_table [],
       unmarshal_contribs = decode_table [],
       time_Parse = map_of [],
       time_Format = (\<lambda>t. []),
       humanSizeFromKB = (\<lambda>kb. []) \<rparr>"

text \<open>
  \<open>blank_gh\<close> and \<open>blank_repo\<close> are the zero values of \<open>ghRepo\<close> and \<open>outRepo\<close>; the
  examples set only the fields they are about.
\<close>

definition blank_gh :: ghRepo where
  "blank_gh =
     \<lparr> gh_Name = [], gh_FullName = [], gh_Description = [], gh_Private = False,
       gh_Fork = False, gh_Archived = False, gh_Disabled = False, gh_Language = [],
       gh_SizeKB = 0, gh_StargazersCount = 0, gh_WatchersCount = 0, gh_ForksCount = 0,
       gh_OpenIssuesCount = 0, gh_DefaultBranch = [], gh_CreatedAt = [], gh_UpdatedAt = [],
       gh_PushedAt = [], gh_HTMLURL = [], gh_Homepage = [], gh_Topics = [],
       gh_HasIssues = False, gh_HasProjects = False, gh_HasWiki = False, gh_HasPages = False,
       gh_HasDownloads = False, gh_Owner_Login = [], gh_Owner_Type = [],
       gh_License_Key = [], gh_License_Name = [], gh_License_SPDX = [] \<rparr>"

definition blank_repo :: outRepo where
  "blank_repo =
     \<lparr> Name = [], FullName = [], Description = [], Private = False, Fork = False,
       Archived = False, Disabled = False, Language = [], Topics = [], Homepage = [],
       DefaultBranch = [], SizeKB = 0, SizeReadable = [], Stars = 0, Forks = 0,
       Watchers = 0, OpenIssues = 0, CreatedAt = [], UpdatedAt = [], PushedAt = [],
       HTMLURL = [], OwnerLogin = [], OwnerType = [], License = [], HasIssues = False,
       HasProjects = False, HasWiki = False, HasPages = False, HasDownloads = False,
       LastCommitAt = [], LastCommitMessage = [], WeeklyCommits52W = [],
       WeeklyStats52W = [], LanguageBreakdown = [], TopContributors = [],
       ContributorCount = 0, TotalCommits = 0, StatsCachePending = False \<rparr>"

text \<open>
  The program never counts characters: \<open>len\<close> and slicing work on bytes. To compare
  the two, \<open>utf8_characters s\<close> is the number of characters of a string \<open>s\<close> that
  holds valid UTF-8, as \<open>utf8.RuneCountInString\<close> gives it: every byte but the
  continuation bytes, \<open>0x80\<close> to \<open>0xBF\<close>, starts a character.
\<close>

definition utf8_characters :: "string \<Rightarrow> nat" where
  "utf8_characters s =
     length (filter (\<lambda>c. \<not> (128 \<le> (of_char c :: nat) \<and> (of_char c :: nat) < 192)) s)"

section \<open>Properties\<close>

subsection \<open>Facts about the retry loop\<close>

declare activity_loop.simps [simp del]

lemma retry_events_0: "retry_events url token a 0 = []"
  by (simp add: retry_events_def)

lemma retry_events_Suc_front:
  "retry_events url token a (Suc k) =
     [Get url token, Sleep (backoffs ! a)] @ retry_events url token (Suc a) k"
  by (simp add: retry_events_def upt_rec)

lemma doGET_Answers:
  "client E tr url token = Answers status body \<Longrightarrow>
   doGET E tr url token = ((status, body, None), tr @ [Get url token])"
  by (simp add: doGET_def)

lemma activity_loop_skip:
  assumes "a + k \<le> length backoffs"
    and "\<forall>i<k. \<exists>b. client E (tr @ retry_events url token a i) url token = Answers 202 b"
  shows "activity_loop E token url a tr
         = activity_loop E token url (a + k) (tr @ retry_events url token a k)"
  using assms
proof (induction k arbitrary: a tr)
  case 0
  then show ?case by (simp add: retry_events_0)
next
  case (Suc k)
  from Suc.prems(2) have "\<exists>b. client E (tr @ retry_events url token a 0) url token = Answers 202 b"
    by blast
  then obtain b where b: "client E tr url token = Answers 202 b"
    by (auto simp: retry_events_0)
  have a: "a < length backoffs" using Suc.prems(1) by simp
  let ?tr = "tr @ [Get url token, Sleep (backoffs ! a)]"
  have step: "activity_loop E token url a tr = activity_loop E token url (Suc a) ?tr"
    using a b by (subst activity_loop.simps) (simp add: doGET_Answers)
  have "\<forall>i<k. \<exists>b. client E (?tr @ retry_events url token (Suc a) i) url token = Answers 202 b"
  proof (intro allI impI)
    fix i assume "i < k"
    then have "Suc i < Suc k" by simp
    with Suc.prems(2) obtain b' where
      "client E (tr @ retry_events url token a (Suc i)) url token = Answers 202 b'" by blast
    then show "\<exists>b. client E (?tr @ retry_events url token (Suc a) i) url token = Answers 202 b"
      by (auto simp: retry_events_Suc_front)
  qed
  with Suc.IH[of "Suc a" ?tr] Suc.prems(1)
  have "activity_loop E token url (Suc a) ?tr
        = activity_loop E token url (Suc a + k) (?tr @ retry_events url token (Suc a) k)"
    by simp
  with step show ?case by (simp add: retry_events_Suc_front)
qed

lemma activity_loop_invariant:
  "case fst (activity_loop E token url attempt tr) of
     (weekly, pending, err) \<Rightarrow>
       (pending \<longrightarrow> weekly = [] \<and> err = None) \<and> (err \<noteq> None \<longrightarrow> \<not> pending)"
proof (induction E token url attempt tr rule: activity_loop.induct)
  case (1 E token url attempt tr)
  obtain status body e tr1 where g: "doGET E tr url token = ((status, body, e), tr1)"
    by (metis prod_cases3 surj_pair)
  show ?case
  proof (cases "attempt \<le> length backoffs \<and> e = None \<and> status = 202 \<and> attempt \<noteq> length backoffs")
    case True
    then have "activity_loop E token url attempt tr
               = activity_loop E token url (attempt + 1) (tr1 @ [Sleep (backoffs ! attempt)])"
      using g by (subst activity_loop.simps) simp
    moreover have "case fst (activity_loop E token url (attempt + 1) (tr1 @ [Sleep (backoffs ! attempt)])) of
       (weekly, pending, err) \<Rightarrow>
         (pending \<longrightarrow> weekly = [] \<and> err = None) \<and> (err \<noteq> None \<longrightarrow> \<not> pending)"
      using True g by (intro "1.IH") auto
    ultimately show ?thesis by simp
  next
    case False
    then show ?thesis
      using g by (subst activity_loop.simps) (auto split: option.splits sum.splits)
  qed
qed

lemma gets_retry_events:
  "length (filter (\<lambda>e. case e of Get _ _ \<Rightarrow> True | _ \<Rightarrow> False) (retry_events url token a k)) = k"
  by (induction k arbitrary: a) (simp_all add: retry_events_0 retry_events_Suc_front)

lemma answers_in_turn_retry:
  "answers_in_turn os (retry_events url token a k) url' token' =
     (if k < length os then os ! k else DoFails (LibError ''unreachable''))"
  by (simp add: answers_in_turn_def gets_retry_events)

lemma retry_events_4:
  "retry_events url token 0 4 =
     [Get url token, Sleep 700, Get url token, Sleep 1200,
      Get url token, Sleep 2000, Get url token, Sleep 3000]"
  by (simp add: retry_events_def backoffs_def upt_rec)

lemma retry_events_1:
  "retry_events url token 0 (Suc 0) = [Get url token, Sleep 700]"
  by (simp add: retry_events_def backoffs_def upt_rec)

lemma length_backoffs: "length backoffs = 4"
  by (simp add: backoffs_def)

lemma sint_of_nat_small:
  "n < 2 ^ 63 \<Longrightarrow> sint (of_nat n :: 64 word) = int n"
proof -
  assume "n < 2 ^ 63"
  then have "int n < 2 ^ 63" by (metis of_nat_less_iff of_nat_numeral of_nat_power)
  then have "signed_take_bit 63 (int n) = int n"
    by (intro signed_take_bit_int_eq_self) auto
  then show ?thesis by (simp add: signed_of_nat)
qed

subsection \<open>The retry loop of the earlier revision\<close>

declare activity_loop_v1.simps [simp del]

lemma activity_loop_v1_skip:
  assumes "a + k \<le> length backoffs"
    and "\<forall>i<k. \<exists>b. client E (tr @ retry_events url token a i) url token = Answers 202 b"
  shows "activity_loop_v1 E token url a tr
         = activity_loop_v1 E token url (a + k) (tr @ retry_events url token a k)"
  using assms
proof (induction k arbitrary: a tr)
  case 0
  then show ?case by (simp add: retry_events_0)
next
  case (Suc k)
  from Suc.prems(2) have "\<exists>b. client E (tr @ retry_events url token a 0) url token = Answers 202 b"
    by blast
  then obtain b where b: "client E tr url token = Answers 202 b"
    by (auto simp: retry_events_0)
  have a: "a < length backoffs" using Suc.prems(1) by simp
  let ?tr = "tr @ [Get url token, Sleep (backoffs ! a)]"
  have step: "activity_loop_v1 E token url a tr = activity_loop_v1 E token url (Suc a) ?tr"
    using a b by (subst activity_loop_v1.simps) (simp add: doGET_Answers)
  have "\<forall>i<k. \<exists>b. client E (?tr @ retry_events url token (Suc a) i) url token = Answers 202 b"
  proof (intro allI impI)
    fix i assume "i < k"
    then have "Suc i < Suc k" by simp
    with Suc.prems(2) obtain b' where
      "client E (tr @ retry_events url token a (Suc i)) url token = Answers 202 b'" by blast
    then show "\<exists>b. client E (?tr @ retry_events url token (Suc a) i) url token = Answers 202 b"
      by (auto simp: retry_events_Suc_front)
  qed
  with Suc.IH[of "Suc a" ?tr] Suc.prems(1)
  have "activity_loop_v1 E token url (Suc a) ?tr
        = activity_loop_v1 E token url (Suc a + k) (?tr @ retry_events url token (Suc a) k)"
    by simp
  with step show ?case by (simp add: retry_events_Suc_front)
qed

lemma fetchLastCommitAt_zero_commits:
  assumes "client E tr (commits_url fullName) token = Answers status body"
    and "200 \<le> status" and "status < 300"
    and "unmarshal_commits E body = Inr []"
  shows "fetchLastCommitAt E token fullName tr =
           (([], None), tr @ [Get (commits_url fullName) token])"
  using assms by (simp add: fetchLastCommitAt_def doGET_def)

lemma activity_v1_fails_fast:
  assumes "k \<le> length backoffs"
    and "\<forall>i<k. \<exists>b. client E (tr @ retry_events (activity_url fullName) token 0 i)
                        (activity_url fullName) token = Answers 202 b"
    and "client E (tr @ retry_events (activity_url fullName) token 0 k)
           (activity_url fullName) token = Answers status body"
    and "status < 200 \<or> status \<ge> 300"
  shows "fetchCommitActivity52W_v1 E token fullName tr =
           (([], False, Some (Errorf_body ''commit_activity error %d: %s'' status body)),
            tr @ retry_events (activity_url fullName) token 0 k @ [Get (activity_url fullName) token])"
proof -
  let ?u = "activity_url fullName"
  have "activity_loop_v1 E token ?u 0 tr
        = activity_loop_v1 E token ?u (0 + k) (tr @ retry_events ?u token 0 k)"
    using assms(1,2) by (intro activity_loop_v1_skip) auto
  also have "\<dots> = (([], False, Some (Errorf_body ''commit_activity error %d: %s'' status body)),
            (tr @ retry_events ?u token 0 k) @ [Get ?u token])"
    using assms(1,3,4) by (subst activity_loop_v1.simps) (auto simp: doGET_Answers)
  finally show ?thesis by (simp add: fetchCommitActivity52W_v1_def)
qed

lemma activity_v1_gives_up_pending:
  assumes "\<forall>i\<le>length backoffs. \<exists>b.
        client E (tr @ retry_events (activity_url fullName) token 0 i)
          (activity_url fullName) token = Answers 202 b"
  shows "fetchCommitActivity52W_v1 E token fullName tr =
            (([], True, None),
             tr @ retry_events (activity_url fullName) token 0 4
                @ [Get (activity_url fullName) token])"
proof -
  let ?u = "activity_url fullName"
  from assms have "\<forall>i<4. \<exists>b. client E (tr @ retry_events ?u token 0 i) ?u token = Answers 202 b"
    by (simp add: length_backoffs)
  then have "activity_loop_v1 E token ?u 0 tr
             = activity_loop_v1 E token ?u (0 + 4) (tr @ retry_events ?u token 0 4)"
    by (intro activity_loop_v1_skip) (simp_all add: length_backoffs)
  moreover obtain b where "client E (tr @ retry_events ?u token 0 4) ?u token = Answers 202 b"
    using assms by (auto simp: length_backoffs)
  then have "activity_loop_v1 E token ?u (0 + 4) (tr @ retry_events ?u token 0 4)
             = (([], True, None), (tr @ retry_events ?u token 0 4) @ [Get ?u token])"
    by (subst activity_loop_v1.simps) (simp add: doGET_Answers length_backoffs)
  ultimately show ?thesis by (simp add: fetchCommitActivity52W_v1_def)
qed

lemma activity_v1_succeeds:
  assumes "k \<le> length backoffs"
    and "\<forall>i<k. \<exists>b. client E (tr @ retry_events (activity_url fullName) token 0 i)
                        (activity_url fullName) token = Answers 202 b"
    and "client E (tr @ retry_events (activity_url fullName) token 0 k)
           (activity_url fullName) token = Answers status body"
    and "200 \<le> status" and "status < 300" and "status \<noteq> 202"
  shows "fetchCommitActivity52W_v1 E token fullName tr =
               ((case unmarshal_weeks E body of
                   Inr weeks \<Rightarrow> (map weeklyStat.Total weeks, False, None)
                 | Inl err \<Rightarrow> ([], False, Some err)),
                tr @ retry_events (activity_url fullName) token 0 k
                   @ [Get (activity_url fullName) token])"
proof -
  let ?u = "activity_url fullName"
  have "activity_loop_v1 E token ?u 0 tr
             = activity_loop_v1 E token ?u (0 + k) (tr @ retry_events ?u token 0 k)"
    using assms(1,2) by (intro activity_loop_v1_skip) auto
  also have "\<dots> = ((case unmarshal_weeks E body of
                   Inr weeks \<Rightarrow> (map weeklyStat.Total weeks, False, None)
                 | Inl err \<Rightarrow> ([], False, Some err)),
                (tr @ retry_events ?u token 0 k) @ [Get ?u token])"
    using assms by (subst activity_loop_v1.simps) (auto simp: doGET_Answers split: sum.splits)
  finally show ?thesis by (simp add: fetchCommitActivity52W_v1_def)
qed

lemma activity_loop_v1_invariant:
  "case fst (activity_loop_v1 E token url attempt tr) of
     (weekly, pending, err) \<Rightarrow>
       (pending \<longrightarrow> weekly = [] \<and> err = None) \<and> (err \<noteq> None \<longrightarrow> \<not> pending)"
proof (induction E token url attempt tr rule: activity_loop_v1.induct)
  case (1 E token url attempt tr)
  obtain status body e tr1 where g: "doGET E tr url token = ((status, body, e), tr1)"
    by (metis prod_cases3 surj_pair)
  show ?case
  proof (cases "attempt \<le> length backoffs \<and> e = None \<and> status = 202 \<and> attempt \<noteq> length backoffs")
    case True
    then have "activity_loop_v1 E token url attempt tr
               = activity_loop_v1 E token url (attempt + 1) (tr1 @ [Sleep (backoffs ! attempt)])"
      using g by (subst activity_loop_v1.simps) simp
    moreover have "case fst (activity_loop_v1 E token url (attempt + 1) (tr1 @ [Sleep (backoffs ! attempt)])) of
       (weekly, pending, err) \<Rightarrow>
         (pending \<longrightarrow> weekly = [] \<and> err = None) \<and> (err \<noteq> None \<longrightarrow> \<not> pending)"
      using True g by (intro "1.IH") auto
    ultimately show ?thesis by simp
  next
    case False
    then show ?thesis
      using g by (subst activity_loop_v1.simps) (auto split: option.splits sum.splits)
  qed
qed

lemma fetchCommitActivity52W_v1_invariant:
  "case fst (fetchCommitActivity52W_v1 E token fullName tr) of
     (weekly, pending, err) \<Rightarrow>
       (pending \<longrightarrow> weekly = [] \<and> err = None) \<and> (err \<noteq> None \<longrightarrow> \<not> pending)"
  unfolding fetchCommitActivity52W_v1_def by (rule activity_loop_v1_invariant)

subsection \<open>Facts about the aggregator\<close>

lemma foldl_view:
  assumes "\<And>a r. V (step a r) = g (V a) r"
  shows "V (foldl step a rs) = foldl g (V a) rs"
  by (induction rs arbitrary: a) (simp_all add: assms)

lemma summ_track_times: "summ (track_times E r a) = summ a"
  by (simp add: track_times_def Let_def split: option.splits)

lemma summ_agg_step: "summ (agg_step E a r) = count_enrichment r (count_repo r (summ a))"
  by (simp add: agg_step_def Let_def summ_track_times)

lemma summ_foldl:
  "summ (foldl (agg_step E) a rs) = foldl (\<lambda>s r. count_enrichment r (count_repo r s)) (summ a) rs"
  by (rule foldl_view) (rule summ_agg_step)

lemma total_commits_foldl:
  "Engagement_TotalCommits (foldl (\<lambda>s r. count_enrichment r (count_repo r s)) s rs)
   = Engagement_TotalCommits s + sum_list (map TotalCommits rs)"
  by (induction rs arbitrary: s) (simp_all add: count_enrichment_def count_repo_def add.assoc)

lemma map_get_bump: "map_get (bump m k) k' = (if k' = k then map_get m k + 1 else map_get m k')"
  by (simp add: bump_def map_get_def)

lemma languages_foldl:
  "k \<noteq> [] \<Longrightarrow>
   map_get (Languages (foldl (\<lambda>s r. count_enrichment r (count_repo r s)) s rs)) k
   = map_get (Languages s) k + of_nat (length (filter (\<lambda>r. Language r = k) rs))"
  by (induction rs arbitrary: s)
     (auto simp: count_enrichment_def count_repo_def map_get_bump)

lemma sint_sum_list:
  "sint (sum_list ws :: 64 word) = signed_take_bit 63 (sum_list (map sint ws))"
proof (induction ws)
  case Nil
  then show ?case by simp
next
  case (Cons w ws)
  have "sint (w + sum_list ws) = signed_take_bit 63 (sint w + sint (sum_list ws))"
    by (simp add: sint_word_ariths)
  also have "\<dots> = signed_take_bit 63 (signed_take_bit 63 (sint w) + signed_take_bit 63 (sum_list (map sint ws)))"
  proof -
    have "signed_take_bit 63 (sint w) = sint w"
      using sint_ge[of w] sint_lt[of w] by (intro signed_take_bit_int_eq_self) simp_all
    then show ?thesis by (simp add: Cons.IH)
  qed
  also have "\<dots> = signed_take_bit 63 (sint w + sum_list (map sint ws))"
    by (rule signed_take_bit_add)
  finally show ?case by simp
qed

lemma repo_total_foldl:
  "RepoCounts_Total (foldl (\<lambda>s r. count_enrichment r (count_repo r s)) s rs)
   = RepoCounts_Total s + of_nat (length rs)"
  by (induction rs arbitrary: s) (simp_all add: count_enrichment_def count_repo_def)

lemma repo_total: "RepoCounts_Total (aggregate E now rs) = of_nat (length rs)"
  by (simp add: aggregate_def agg_finish_def summ_foldl repo_total_foldl agg_init_def)

lemma Max_insert_max:
  "finite S \<Longrightarrow> Max (insert (max u t) S) = Max (insert u (insert t S))" for u t :: int
  by (cases "S = {}") (simp_all add: max.assoc)

lemma Min_insert_min:
  "finite S \<Longrightarrow> Min (insert (min u t) S) = Min (insert u (insert t S))" for u t :: int
  by (cases "S = {}") (simp_all add: min.assoc)

lemma fold_latest:
  "foldl (\<lambda>v r. case p r of None \<Rightarrow> v
                 | Some t \<Rightarrow> Some (case v of None \<Rightarrow> t | Some u \<Rightarrow> max u t)) v rs
   = (case v of
        None \<Rightarrow> (if List.map_filter p rs = [] then None
                 else Some (Max (set (List.map_filter p rs))))
      | Some u \<Rightarrow> Some (Max (insert u (set (List.map_filter p rs)))))"
  for v :: "int option"
proof (induction rs arbitrary: v)
  case Nil
  then show ?case by (simp split: option.splits)
next
  case (Cons r rs)
  show ?case
    by (cases "p r"; cases v)
       (simp_all add: Cons.IH Max_insert_max)
qed

lemma fold_earliest:
  "foldl (\<lambda>v r. case p r of None \<Rightarrow> v
                 | Some t \<Rightarrow> Some (case v of None \<Rightarrow> t | Some u \<Rightarrow> min u t)) v rs
   = (case v of
        None \<Rightarrow> (if List.map_filter p rs = [] then None
                 else Some (Min (set (List.map_filter p rs))))
      | Some u \<Rightarrow> Some (Min (insert u (set (List.map_filter p rs)))))"
  for v :: "int option"
proof (induction rs arbitrary: v)
  case Nil
  then show ?case by (simp split: option.splits)
next
  case (Cons r rs)
  show ?case
    by (cases "p r"; cases v)
       (simp_all add: Cons.IH Min_insert_min)
qed

lemma track_times_update:
  "hasUpdate (track_times E r a) = (hasUpdate a \<or> time_Parse E (UpdatedAt r) \<noteq> None)"
  "newestUpdate (track_times E r a) =
     (case time_Parse E (UpdatedAt r) of
        None \<Rightarrow> newestUpdate a
      | Some t \<Rightarrow> if \<not> hasUpdate a \<or> t > newestUpdate a then t else newestUpdate a)"
  "hasOldUpdate (track_times E r a) = (hasOldUpdate a \<or> time_Parse E (UpdatedAt r) \<noteq> None)"
  "oldestUpdate (track_times E r a) =
     (case time_Parse E (UpdatedAt r) of
        None \<Rightarrow> oldestUpdate a
      | Some t \<Rightarrow> if \<not> hasOldUpdate a \<or> t < oldestUpdate a then t else oldestUpdate a)"
  by (auto simp: track_times_def Let_def split: option.splits)

lemma track_times_push:
  "hasPush (track_times E r a) = (hasPush a \<or> time_Parse E (PushedAt r) \<noteq> None)"
  "newestPush (track_times E r a) =
     (case time_Parse E (PushedAt r) of
        None \<Rightarrow> newestPush a
      | Some t \<Rightarrow> if \<not> hasPush a \<or> t > newestPush a then t else newestPush a)"
  by (auto simp: track_times_def Let_def split: option.splits)

lemma track_times_created:
  "hasCreated (track_times E r a) = (hasCreated a \<or> time_Parse E (CreatedAt r) \<noteq> None)"
  "oldestCreated (track_times E r a) =
     (case time_Parse E (CreatedAt r) of
        None \<Rightarrow> oldestCreated a
      | Some t \<Rightarrow> if \<not> hasCreated a \<or> t < oldestCreated a then t else oldestCreated a)"
  by (auto simp: track_times_def Let_def split: option.splits)

lemma newest_update_step:
  "(if hasUpdate (agg_step E a r) then Some (newestUpdate (agg_step E a r)) else None)
   = (case time_Parse E (UpdatedAt r) of
        None \<Rightarrow> (if hasUpdate a then Some (newestUpdate a) else None)
      | Some t \<Rightarrow> Some (case (if hasUpdate a then Some (newestUpdate a) else None) of
                         None \<Rightarrow> t | Some u \<Rightarrow> max u t))"
  by (cases "time_Parse E (UpdatedAt r)")
     (auto simp: agg_step_def Let_def track_times_update max_def)

lemma oldest_update_step:
  "(if hasOldUpdate (agg_step E a r) then Some (oldestUpdate (agg_step E a r)) else None)
   = (case time_Parse E (UpdatedAt r) of
        None \<Rightarrow> (if hasOldUpdate a then Some (oldestUpdate a) else None)
      | Some t \<Rightarrow> Some (case (if hasOldUpdate a then Some (oldestUpdate a) else None) of
                         None \<Rightarrow> t | Some u \<Rightarrow> min u t))"
  by (cases "time_Parse E (UpdatedAt r)")
     (auto simp: agg_step_def Let_def track_times_update min_def)

lemma newest_push_step:
  "(if hasPush (agg_step E a r) then Some (newestPush (agg_step E a r)) else None)
   = (case time_Parse E (PushedAt r) of
        None \<Rightarrow> (if hasPush a then Some (newestPush a) else None)
      | Some t \<Rightarrow> Some (case (if hasPush a then Some (newestPush a) else None) of
                         None \<Rightarrow> t | Some u \<Rightarrow> max u t))"
  by (cases "time_Parse E (PushedAt r)")
     (auto simp: agg_step_def Let_def track_times_push max_def)

lemma oldest_created_step:
  "(if hasCreated (agg_step E a r) then Some (oldestCreated (agg_step E a r)) else None)
   = (case time_Parse E (CreatedAt r) of
        None \<Rightarrow> (if hasCreated a then Some (oldestCreated a) else None)
      | Some t \<Rightarrow> Some (case (if hasCreated a then Some (oldestCreated a) else None) of
                         None \<Rightarrow> t | Some u \<Rightarrow> min u t))"
  by (cases "time_Parse E (CreatedAt r)")
     (auto simp: agg_step_def Let_def track_times_created min_def)

lemma newest_update_foldl:
  "(if hasUpdate (foldl (agg_step E) (agg_init E now) rs)
    then Some (newestUpdate (foldl (agg_step E) (agg_init E now) rs)) else None)
   = (if List.map_filter (\<lambda>r. time_Parse E (UpdatedAt r)) rs = [] then None
      else Some (Max (set (List.map_filter (\<lambda>r. time_Parse E (UpdatedAt r)) rs))))"
proof -
  have "(if hasUpdate (foldl (agg_step E) (agg_init E now) rs)
         then Some (newestUpdate (foldl (agg_step E) (agg_init E now) rs)) else None)
        = foldl (\<lambda>v r. case time_Parse E (UpdatedAt r) of None \<Rightarrow> v
                 | Some t \<Rightarrow> Some (case v of None \<Rightarrow> t | Some u \<Rightarrow> max u t))
            (if hasUpdate (agg_init E now) then Some (newestUpdate (agg_init E now)) else None) rs"
    by (rule foldl_view[where V = "\<lambda>a. if hasUpdate a then Some (newestUpdate a) else None"])
       (rule newest_update_step)
  then show ?thesis by (simp add: fold_latest agg_init_def)
qed

lemma oldest_update_foldl:
  "(if hasOldUpdate (foldl (agg_step E) (agg_init E now) rs)
    then Some (oldestUpdate (foldl (agg_step E) (agg_init E now) rs)) else None)
   = (if List.map_filter (\<lambda>r. time_Parse E (UpdatedAt r)) rs = [] then None
      else Some (Min (set (List.map_filter (\<lambda>r. time_Parse E (UpdatedAt r)) rs))))"
proof -
  have "(if hasOldUpdate (foldl (agg_step E) (agg_init E now) rs)
         then Some (oldestUpdate (foldl (agg_step E) (agg_init E now) rs)) else None)
        = foldl (\<lambda>v r. case time_Parse E (UpdatedAt r) of None \<Rightarrow> v
                 | Some t \<Rightarrow> Some (case v of None \<Rightarrow> t | Some u \<Rightarrow> min u t))
            (if hasOldUpdate (agg_init E now) then Some (oldestUpdate (agg_init E now)) else None) rs"
    by (rule foldl_view[where V = "\<lambda>a. if hasOldUpdate a then Some (oldestUpdate a) else None"])
       (rule oldest_update_step)
  then show ?thesis by (simp add: fold_earliest agg_init_def)
qed

lemma newest_push_foldl:
  "(if hasPush (foldl (agg_step E) (agg_init E now) rs)
    then Some (newestPush (foldl (agg_step E) (agg_init E now) rs)) else None)
   = (if List.map_filter (\<lambda>r. time_Parse E (PushedAt r)) rs = [] then None
      else Some (Max (set (List.map_filter (\<lambda>r. time_Parse E (PushedAt r)) rs))))"
proof -
  have "(if hasPush (foldl (agg_step E) (agg_init E now) rs)
         then Some (newestPush (foldl (agg_step E) (agg_init E now) rs)) else None)
        = foldl (\<lambda>v r. case time_Parse E (PushedAt r) of None \<Rightarrow> v
                 | Some t \<Rightarrow> Some (case v of None \<Rightarrow> t | Some u \<Rightarrow> max u t))
            (if hasPush (agg_init E now) then Some (newestPush (agg_init E now)) else None) rs"
    by (rule foldl_view[where V = "\<lambda>a. if hasPush a then Some (newestPush a) else None"])
       (rule newest_push_step)
  then show ?thesis by (simp add: fold_latest agg_init_def)
qed

lemma oldest_created_foldl:
  "(if hasCreated (foldl (agg_step E) (agg_init E now) rs)
    then Some (oldestCreated (foldl (agg_step E) (agg_init E now) rs)) else None)
   = (if List.map_filter (\<lambda>r. time_Parse E (CreatedAt r)) rs = [] then None
      else Some (Min (set (List.map_filter (\<lambda>r. time_Parse E (CreatedAt r)) rs))))"
proof -
  have "(if hasCreated (foldl (agg_step E) (agg_init E now) rs)
         then Some (oldestCreated (foldl (agg_step E) (agg_init E now) rs)) else None)
        = foldl (\<lambda>v r. case time_Parse E (CreatedAt r) of None \<Rightarrow> v
                 | Some t \<Rightarrow> Some (case v of None \<Rightarrow> t | Some u \<Rightarrow> min u t))
            (if hasCreated (agg_init E now) then Some (oldestCreated (agg_init E now)) else None) rs"
    by (rule foldl_view[where V = "\<lambda>a. if hasCreated a then Some (oldestCreated a) else None"])
       (rule oldest_created_step)
  then show ?thesis by (simp add: fold_earliest agg_init_def)
qed

lemma activity_fields_init:
  "Activity_MostRecentUpdate (foldl (\<lambda>s r. count_enrichment r (count_repo r s)) s rs)
     = Activity_MostRecentUpdate s"
  "Activity_MostRecentPush (foldl (\<lambda>s r. count_enrichment r (count_repo r s)) s rs)
     = Activity_MostRecentPush s"
  "Activity_OldestCreated (foldl (\<lambda>s r. count_enrichment r (count_repo r s)) s rs)
     = Activity_OldestCreated s"
  "Activity_OldestUpdate (foldl (\<lambda>s r. count_enrichment r (count_repo r s)) s rs)
     = Activity_OldestUpdate s"
  by (induction rs arbitrary: s) (simp_all add: count_enrichment_def count_repo_def)

lemma if_Some_eq: "((if b then Some x else None) = (if c then None else Some y)) \<Longrightarrow> (b = (\<not> c)) \<and> (b \<longrightarrow> x = y)"
  by (auto split: if_splits)

lemma most_recent_update:
  "Activity_MostRecentUpdate (aggregate E now rs) =
     (if List.map_filter (\<lambda>r. time_Parse E (UpdatedAt r)) rs = [] then []
      else time_Format E (Max (set (List.map_filter (\<lambda>r. time_Parse E (UpdatedAt r)) rs))))"
  using if_Some_eq[OF newest_update_foldl[of E now rs]]
  by (auto simp: aggregate_def agg_finish_def summ_foldl activity_fields_init agg_init_def)

lemma oldest_update:
  "Activity_OldestUpdate (aggregate E now rs) =
     (if List.map_filter (\<lambda>r. time_Parse E (UpdatedAt r)) rs = [] then []
      else time_Format E (Min (set (List.map_filter (\<lambda>r. time_Parse E (UpdatedAt r)) rs))))"
  using if_Some_eq[OF oldest_update_foldl[of E now rs]]
  by (auto simp: aggregate_def agg_finish_def summ_foldl activity_fields_init agg_init_def)

lemma most_recent_push:
  "Activity_MostRecentPush (aggregate E now rs) =
     (if List.map_filter (\<lambda>r. time_Parse E (PushedAt r)) rs = [] then []
      else time_Format E (Max (set (List.map_filter (\<lambda>r. time_Parse E (PushedAt r)) rs))))"
  using if_Some_eq[OF newest_push_foldl[of E now rs]]
  by (auto simp: aggregate_def agg_finish_def summ_foldl activity_fields_init agg_init_def)

lemma oldest_created:
  "Activity_OldestCreated (aggregate E now rs) =
     (if List.map_filter (\<lambda>r. time_Parse E (CreatedAt r)) rs = [] then []
      else time_Format E (Min (set (List.map_filter (\<lambda>r. time_Parse E (CreatedAt r)) rs))))"
  using if_Some_eq[OF oldest_created_foldl[of E now rs]]
  by (auto simp: aggregate_def agg_finish_def summ_foldl activity_fields_init agg_init_def)

lemma counts_ignore_timestamps:
  "count_enrichment (r\<lparr>CreatedAt := c, UpdatedAt := u, PushedAt := p\<rparr>)
     (count_repo (r\<lparr>CreatedAt := c, UpdatedAt := u, PushedAt := p\<rparr>) s)
   = count_enrichment r (count_repo r s)"
  by (simp add: count_enrichment_def count_repo_def)

lemma summ_ignores_timestamps:
  "foldl (\<lambda>s r. count_enrichment r (count_repo r s)) s
     (map (\<lambda>r. r\<lparr>CreatedAt := fc r, UpdatedAt := fu r, PushedAt := fp r\<rparr>) rs)
   = foldl (\<lambda>s r. count_enrichment r (count_repo r s)) s rs"
  by (induction rs arbitrary: s) (simp_all add: counts_ignore_timestamps)

lemma other_fields_ignore_timestamps:
  "(aggregate E now (map (\<lambda>r. r\<lparr>CreatedAt := fc r, UpdatedAt := fu r, PushedAt := fp r\<rparr>) rs))
      \<lparr>Activity_MostRecentUpdate := x1, Activity_MostRecentPush := x2,
       Activity_OldestCreated := x3, Activity_OldestUpdate := x4\<rparr>
   = (aggregate E now rs)
      \<lparr>Activity_MostRecentUpdate := x1, Activity_MostRecentPush := x2,
       Activity_OldestCreated := x3, Activity_OldestUpdate := x4\<rparr>"
  by (simp add: aggregate_def agg_finish_def summ_foldl summ_ignores_timestamps)

subsection \<open>Facts about the enrichment job\<close>

lemma store_keeps_pending:
  "StatsCachePending (store_last_commit res1 r) = StatsCachePending r"
  "WeeklyCommits52W (store_last_commit res1 r) = WeeklyCommits52W r"
  "StatsCachePending (store_languages res3 r) = StatsCachePending r"
  "WeeklyCommits52W (store_languages res3 r) = WeeklyCommits52W r"
  "StatsCachePending (store_contributors res4 r) = StatsCachePending r"
  "WeeklyCommits52W (store_contributors res4 r) = WeeklyCommits52W r"
  by (simp_all add: store_last_commit_def store_languages_def store_contributors_def
      split: prod.splits)

lemma store_activity_pending:
  assumes "StatsCachePending r \<longrightarrow> WeeklyCommits52W r = []"
  shows "StatsCachePending (store_activity (fst (fetchCommitActivity52W E token fullName tr)) r)
         \<longrightarrow> WeeklyCommits52W (store_activity (fst (fetchCommitActivity52W E token fullName tr)) r) = []"
proof -
  obtain weekly pending err where
    res: "fst (fetchCommitActivity52W E token fullName tr) = (weekly, pending, err)"
    by (metis prod_cases3)
  have "pending \<longrightarrow> weekly = []"
    using activity_loop_invariant[of E token "activity_url fullName" 0 tr] res
    by (simp add: fetchCommitActivity52W_def)
  then show ?thesis using assms by (simp add: res store_activity_def)
qed

lemma enrich_pending:
  assumes "StatsCachePending r \<longrightarrow> WeeklyCommits52W r = []"
  shows "StatsCachePending (fst (enrich E token r tr))
         \<longrightarrow> WeeklyCommits52W (fst (enrich E token r tr)) = []"
proof -
  obtain res1 tr1 where f1: "fetchLastCommit E token (FullName r) tr = (res1, tr1)"
    by (metis surj_pair)
  obtain res2 tr2 where f2: "fetchCommitActivity52W E token (FullName r) tr1 = (res2, tr2)"
    by (metis surj_pair)
  obtain res3 tr3 where f3: "fetchLanguages E token (FullName r) tr2 = (res3, tr3)"
    by (metis surj_pair)
  obtain res4 tr4 where f4: "fetchContributors E token (FullName r) tr3 = (res4, tr4)"
    by (metis surj_pair)
  have e: "fst (enrich E token r tr)
           = store_contributors res4 (store_languages res3
               (store_activity (fst (fetchCommitActivity52W E token (FullName r) tr1))
                  (store_last_commit res1 r)))"
    by (simp add: enrich_def Let_def f1 f2 f3 f4)
  have "StatsCachePending (store_last_commit res1 r) \<longrightarrow> WeeklyCommits52W (store_last_commit res1 r) = []"
    using assms by (simp add: store_keeps_pending)
  from store_activity_pending[OF this, of E token "FullName r" tr1]
  show ?thesis by (simp add: e store_keeps_pending)
qed

lemma base_out_not_pending: "\<not> StatsCachePending (base_out E g)"
  by (simp add: base_out_def)

lemma coverage_foldl:
  "Enrichment_ReposWithStats52W (foldl (\<lambda>s r. count_enrichment r (count_repo r s)) s rs)
   = Enrichment_ReposWithStats52W s + of_nat (length (filter (\<lambda>r. length (WeeklyCommits52W r) > 0) rs))"
  "Enrichment_ReposStatsPending (foldl (\<lambda>s r. count_enrichment r (count_repo r s)) s rs)
   = Enrichment_ReposStatsPending s + of_nat (length (filter StatsCachePending rs))"
  by (induction rs arbitrary: s) (simp_all add: count_enrichment_def count_repo_def)

lemma coverage_counters:
  "Enrichment_ReposWithStats52W (aggregate E now rs)
   = of_nat (length (filter (\<lambda>r. length (WeeklyCommits52W r) > 0) rs))"
  "Enrichment_ReposStatsPending (aggregate E now rs)
   = of_nat (length (filter StatsCachePending rs))"
  by (simp_all add: aggregate_def agg_finish_def summ_foldl coverage_foldl agg_init_def)

lemma disjoint_filters_length:
  "\<forall>r\<in>set rs. \<not> (P r \<and> Q r) \<Longrightarrow> length (filter P rs) + length (filter Q rs) \<le> length rs"
  by (induction rs) auto

lemma fetchLastCommit_trace:
  "snd (fetchLastCommit E token full tr) = tr @ [Get (commits_url full) token]"
  by (simp add: fetchLastCommit_def doGET_def Let_def
      split: http_outcome.splits sum.splits list.splits)

lemma fetchLanguages_trace:
  "snd (fetchLanguages E token full tr) = tr @ [Get (languages_url full) token]"
  by (simp add: fetchLanguages_def doGET_def split: http_outcome.splits sum.splits)

lemma fetchContributors_trace:
  "snd (fetchContributors E token full tr) = tr @ [Get (contributors_url full) token]"
  by (simp add: fetchContributors_def doGET_def Let_def split: http_outcome.splits sum.splits)

lemma doGET_trace: "snd (doGET E tr url token) = tr @ [Get url token]"
  by (simp add: doGET_def)

lemma activity_loop_trace:
  "attempt \<le> length backoffs \<Longrightarrow>
   \<exists>evs. snd (activity_loop E token url attempt tr) = tr @ Get url token # evs"
proof (induction E token url attempt tr rule: activity_loop.induct)
  case (1 E token url attempt tr)
  obtain status body e tr1 where g: "doGET E tr url token = ((status, body, e), tr1)"
    by (metis prod_cases3 surj_pair)
  then have tr1: "tr1 = tr @ [Get url token]"
    using doGET_trace[of E tr url token] by simp
  show ?case
  proof (cases "e = None \<and> status = 202 \<and> attempt \<noteq> length backoffs")
    case True
    then have unf: "activity_loop E token url attempt tr
               = activity_loop E token url (attempt + 1) (tr1 @ [Sleep (backoffs ! attempt)])"
      using g "1.prems" by (subst activity_loop.simps) simp
    have "\<exists>evs. snd (activity_loop E token url (attempt + 1) (tr1 @ [Sleep (backoffs ! attempt)]))
                = (tr1 @ [Sleep (backoffs ! attempt)]) @ Get url token # evs"
      using True g "1.prems" by (intro "1.IH") auto
    then show ?thesis by (auto simp: unf tr1)
  next
    case False
    then have "snd (activity_loop E token url attempt tr) = tr1"
      using g "1.prems"
      by (subst activity_loop.simps) (auto split: option.splits sum.splits)
    then show ?thesis by (simp add: tr1)
  qed
qed

lemma fetchCommitActivity52W_trace:
  "\<exists>evs. snd (fetchCommitActivity52W E token full tr) = tr @ Get (activity_url full) token # evs"
  unfolding fetchCommitActivity52W_def by (rule activity_loop_trace) simp

lemma foldl_totals:
  "foldl (\<lambda>totalCommits w. totalCommits + weeklyStat.Total w) acc weeks
   = acc + sum_list (map weeklyStat.Total weeks)"
  by (induction weeks arbitrary: acc) (simp_all add: add.assoc)

lemmas eval_enrich =
  enrich_def fetchLastCommit_def fetchCommitActivity52W_def activity_loop.simps
  fetchLanguages_def fetchContributors_def doGET_def answers_in_turn_def decode_table_def
  backoffs_def store_last_commit_def store_activity_def store_languages_def
  store_contributors_def Let_def commits_url_def activity_url_def languages_url_def
  contributors_url_def

subsection \<open>Facts about the worker pool\<close>

lemma interleaving_Cons:
  "interleaving qs (x # s) \<longleftrightarrow>
     (\<exists>w q'. w < length qs \<and> qs ! w = x # q' \<and> interleaving (qs[w := q']) s)"
proof
  assume "interleaving qs (x # s)"
  then obtain w where w: "w < length qs"
    and c: "case qs ! w of [] \<Rightarrow> False | y # q' \<Rightarrow> y = x \<and> interleaving (qs[w := q']) s"
    by (auto simp: list_ex_iff)
  from c obtain q' where "qs ! w = x # q'" "interleaving (qs[w := q']) s"
    by (cases "qs ! w") auto
  with w show "\<exists>w q'. w < length qs \<and> qs ! w = x # q' \<and> interleaving (qs[w := q']) s"
    by blast
next
  assume "\<exists>w q'. w < length qs \<and> qs ! w = x # q' \<and> interleaving (qs[w := q']) s"
  then obtain w q' where w: "w < length qs" "qs ! w = x # q'" "interleaving (qs[w := q']) s"
    by blast
  then have "case qs ! w of [] \<Rightarrow> False | y # q' \<Rightarrow> y = x \<and> interleaving (qs[w := q']) s"
    by simp
  with w(1) show "interleaving qs (x # s)"
    by (auto simp: list_ex_iff intro!: bexI[of _ w])
qed

declare interleaving.simps(2) [simp del]

lemma interleaving_filter:
  "interleaving qs s \<Longrightarrow> interleaving (map (filter P) qs) (filter P s)"
proof (induction s arbitrary: qs)
  case Nil
  then show ?case by (auto simp: list_all_iff)
next
  case (Cons x s)
  then obtain w q' where w: "w < length qs" "qs ! w = x # q'" "interleaving (qs[w := q']) s"
    by (auto simp: interleaving_Cons)
  from Cons.IH[OF w(3)] have ih: "interleaving ((map (filter P) qs)[w := filter P q']) (filter P s)"
    by (simp add: map_update)
  show ?case
  proof (cases "P x")
    case True
    then have "(map (filter P) qs) ! w = x # filter P q'" using w by simp
    with ih w(1) True show ?thesis by (auto simp: interleaving_Cons)
  next
    case False
    then have "(map (filter P) qs) ! w = filter P q'" using w by simp
    then have "(map (filter P) qs)[w := filter P q'] = map (filter P) qs"
      by (metis list_update_id)
    with ih False show ?thesis by simp
  qed
qed

lemma interleaving_single:
  "interleaving qs s \<Longrightarrow> w < length qs \<Longrightarrow> \<forall>v<length qs. v \<noteq> w \<longrightarrow> qs ! v = [] \<Longrightarrow> s = qs ! w"
proof (induction s arbitrary: qs)
  case Nil
  then have "\<forall>q\<in>set qs. q = []" by (simp add: list_all_iff)
  moreover have "qs ! w \<in> set qs" using Nil.prems(2) by simp
  ultimately have "qs ! w = []" by blast
  then show ?case by simp
next
  case (Cons x s)
  then obtain w0 q' where w0: "w0 < length qs" "qs ! w0 = x # q'" "interleaving (qs[w0 := q']) s"
    by (auto simp: interleaving_Cons)
  have "w0 = w" using Cons.prems(3) w0(1,2) by force
  with w0 have "s = (qs[w := q']) ! w"
    using Cons.prems by (intro Cons.IH) auto
  with w0 \<open>w0 = w\<close> show ?case by simp
qed

lemma interleaving_set: "interleaving qs s \<Longrightarrow> set s \<subseteq> \<Union>(set ` set qs)"
proof (induction s arbitrary: qs)
  case Nil
  then show ?case by simp
next
  case (Cons x s)
  then obtain w q' where w: "w < length qs" "qs ! w = x # q'" "interleaving (qs[w := q']) s"
    by (auto simp: interleaving_Cons)
  have x: "x \<in> \<Union>(set ` set qs)"
    using w(1,2) by (metis UN_I list.set_intros(1) nth_mem)
  have "set s \<subseteq> \<Union>(set ` set (qs[w := q']))" using Cons.IH[OF w(3)] .
  also have "\<dots> \<subseteq> \<Union>(set ` set qs)"
  proof
    fix y assume "y \<in> \<Union>(set ` set (qs[w := q']))"
    then obtain q where q: "q \<in> set (qs[w := q'])" "y \<in> set q" by auto
    from q(1) have "q = q' \<or> q \<in> set qs"
      using set_update_subset_insert[of qs w q'] by auto
    then show "y \<in> \<Union>(set ` set qs)"
    proof
      assume "q = q'"
      then have "y \<in> set (qs ! w)" using q(2) w(2) by simp
      then show ?thesis using w(1) by (metis UN_I nth_mem)
    next
      assume "q \<in> set qs"
      then show ?thesis using q(2) by auto
    qed
  qed
  finally show ?case using x by simp
qed

lemma worker_writes_Cons: "worker_writes (a # q) = job_steps a @ worker_writes q"
  by (simp add: worker_writes_def)

lemma filter_worker_writes:
  "distinct q \<Longrightarrow>
   filter (\<lambda>(j, k). j = i) (worker_writes q) = (if i \<in> set q then job_steps i else [])"
proof (induction q)
  case Nil
  then show ?case by (simp add: worker_writes_def)
next
  case (Cons a q)
  have "filter (\<lambda>(j, k). j = i) (job_steps a) = (if a = i then job_steps i else [])"
    by (simp add: job_steps_def)
  with Cons show ?case by (auto simp: worker_writes_Cons)
qed

lemma set_worker_writes: "set (worker_writes q) = {(i, k). i \<in> set q \<and> k < 4}"
proof (induction q)
  case Nil
  then show ?case by (simp add: worker_writes_def)
next
  case (Cons a q)
  have "set (job_steps a) = {(i, k). i = a \<and> k < 4}"
    by (auto simp: job_steps_def)
  with Cons show ?case by (auto simp: worker_writes_Cons)
qed

lemma distinct_concat_disjoint:
  "distinct (concat qs) \<Longrightarrow> v < length qs \<Longrightarrow> w < length qs \<Longrightarrow> v \<noteq> w
   \<Longrightarrow> x \<in> set (qs ! v) \<Longrightarrow> x \<notin> set (qs ! w)"
proof (induction qs arbitrary: v w)
  case Nil
  then show ?case by simp
next
  case (Cons q qs)
  show ?case
  proof (cases v)
    case 0
    then obtain w' where w': "w = Suc w'" using Cons.prems(4) by (cases w) auto
    then have "qs ! w' \<in> set qs" using Cons.prems(3) by simp
    then have "set ((q # qs) ! w) \<subseteq> set (concat qs)"
      using w' by auto
    moreover have "x \<in> set q" using Cons.prems(5) 0 by simp
    ultimately show ?thesis using Cons.prems(1) by auto
  next
    case (Suc v')
    show ?thesis
    proof (cases w)
      case 0
      have "qs ! v' \<in> set qs" using Cons.prems(2) Suc by simp
      then have "set ((q # qs) ! v) \<subseteq> set (concat qs)"
        using Suc by auto
      then have "x \<in> set (concat qs)" using Cons.prems(5) by auto
      then show ?thesis using Cons.prems(1) 0 by auto
    next
      case (Suc w')
      then show ?thesis
        using Cons.prems \<open>v = Suc v'\<close> Cons.IH[of v' w'] by auto
    qed
  qed
qed

lemma pool_run_projection:
  assumes "pool_run n qs s" and "i < n"
  shows "filter (\<lambda>(j, k). j = i) s = job_steps i"
proof -
  let ?P = "\<lambda>(j, k). j = i"
  from assms(1) have d: "distinct (concat qs)" and c: "set (concat qs) = {0..<n}"
    and il: "interleaving (map worker_writes qs) s"
    by (simp_all add: pool_run_def)
  from c assms(2) have "i \<in> set (concat qs)" by simp
  then obtain q where "q \<in> set qs" "i \<in> set q" by auto
  then obtain w where w: "w < length qs" "i \<in> set (qs ! w)"
    by (auto simp: in_set_conv_nth)
  have dq: "distinct (qs ! v)" if "v < length qs" for v
    using d that by (auto simp: distinct_concat_iff)
  have others: "\<forall>v<length (map (filter ?P) (map worker_writes qs)). v \<noteq> w \<longrightarrow>
                  map (filter ?P) (map worker_writes qs) ! v = []"
  proof (intro allI impI)
    fix v assume v: "v < length (map (filter ?P) (map worker_writes qs))" "v \<noteq> w"
    then have vl: "v < length qs" by simp
    have "i \<notin> set (qs ! v)"
      using distinct_concat_disjoint[OF d w(1) vl _ w(2)] v(2) by auto
    then show "map (filter ?P) (map worker_writes qs) ! v = []"
      using vl by (simp add: filter_worker_writes[OF dq[OF vl]])
  qed
  have "interleaving (map (filter ?P) (map worker_writes qs)) (filter ?P s)"
    using il by (rule interleaving_filter)
  then have "filter ?P s = map (filter ?P) (map worker_writes qs) ! w"
    using others w(1) by (intro interleaving_single) simp_all
  also have "\<dots> = job_steps i"
    using w by (simp add: filter_worker_writes[OF dq[OF w(1)]])
  finally show ?thesis .
qed

lemma pool_run_bounds:
  assumes "pool_run n qs s" and "(i, k) \<in> set s"
  shows "i < n \<and> k < 4"
proof -
  from assms(1) have c: "set (concat qs) = {0..<n}"
    and il: "interleaving (map worker_writes qs) s"
    by (simp_all add: pool_run_def)
  from interleaving_set[OF il] assms(2) obtain q where q: "q \<in> set qs" "(i, k) \<in> set (worker_writes q)"
    by auto
  then have "i \<in> set q" "k < 4" by (simp_all add: set_worker_writes)
  with q(1) have "i \<in> set (concat qs)" by auto
  with c \<open>k < 4\<close> show ?thesis by simp
qed

lemma apply_writes_result:
  "\<forall>(i, k)\<in>set s. i < length rs \<and> k < 4 \<Longrightarrow>
   \<exists>rs'. apply_writes res s rs = Some rs' \<and> length rs' = length rs
        \<and> (\<forall>i<length rs. rs' ! i = foldl (\<lambda>r k. (job_writes (res i) ! k) r) (rs ! i)
                                       (map snd (filter (\<lambda>(j, k). j = i) s)))"
proof (induction s arbitrary: rs)
  case Nil
  then show ?case by simp
next
  case (Cons a s)
  obtain j k where a: "a = (j, k)" by (cases a)
  let ?rs = "rs[j := (job_writes (res j) ! k) (rs ! j)]"
  from Cons.prems a have jk: "j < length rs" "k < 4" by auto
  from Cons.prems have "\<forall>(i, k)\<in>set s. i < length ?rs \<and> k < 4" by auto
  from Cons.IH[OF this] obtain rs' where rs':
    "apply_writes res s ?rs = Some rs'" "length rs' = length ?rs"
    "\<forall>i<length ?rs. rs' ! i = foldl (\<lambda>r k. (job_writes (res i) ! k) r) (?rs ! i)
                                       (map snd (filter (\<lambda>(j, k). j = i) s))"
    by blast
  have "apply_writes res (a # s) rs = Some rs'"
    using a jk rs'(1) by simp
  moreover have "length rs' = length rs" using rs'(2) by simp
  moreover have "\<forall>i<length rs. rs' ! i = foldl (\<lambda>r k. (job_writes (res i) ! k) r) (rs ! i)
                                       (map snd (filter (\<lambda>(j, k). j = i) (a # s)))"
  proof (intro allI impI)
    fix i assume i: "i < length rs"
    with rs'(3) have "rs' ! i = foldl (\<lambda>r k. (job_writes (res i) ! k) r) (?rs ! i)
                                       (map snd (filter (\<lambda>(j, k). j = i) s))"
      by simp
    then show "rs' ! i = foldl (\<lambda>r k. (job_writes (res i) ! k) r) (rs ! i)
                                       (map snd (filter (\<lambda>(j, k). j = i) (a # s)))"
      using a i jk by (cases "j = i") simp_all
  qed
  ultimately show ?case by blast
qed

lemma four_writes:
  "foldl (\<lambda>r k. (job_writes x ! k) r) r0 (map snd (job_steps i)) = foldl (\<lambda>r w. w r) r0 (job_writes x)"
  by (simp add: job_steps_def job_writes_def)

lemma pool_run_result:
  assumes "pool_run (length rs) qs s"
  shows "apply_writes res s rs
         = Some (map (\<lambda>i. foldl (\<lambda>r w. w r) (rs ! i) (job_writes (res i))) [0..<length rs])"
proof -
  have "\<forall>(i, k)\<in>set s. i < length rs \<and> k < 4"
    using pool_run_bounds[OF assms] by auto
  from apply_writes_result[OF this, of res] obtain rs' where rs':
    "apply_writes res s rs = Some rs'" "length rs' = length rs"
    "\<forall>i<length rs. rs' ! i = foldl (\<lambda>r k. (job_writes (res i) ! k) r) (rs ! i)
                                       (map snd (filter (\<lambda>(j, k). j = i) s))"
    by blast
  have "rs' = map (\<lambda>i. foldl (\<lambda>r w. w r) (rs ! i) (job_writes (res i))) [0..<length rs]"
  proof (rule nth_equalityI)
    show "length rs' = length (map (\<lambda>i. foldl (\<lambda>r w. w r) (rs ! i) (job_writes (res i))) [0..<length rs])"
      using rs'(2) by simp
  next
    fix i assume "i < length rs'"
    then have i: "i < length rs" using rs'(2) by simp
    then show "rs' ! i = map (\<lambda>i. foldl (\<lambda>r w. w r) (rs ! i) (job_writes (res i))) [0..<length rs] ! i"
      using rs'(3) pool_run_projection[OF assms i] by (simp add: four_writes)
  qed
  with rs'(1) show ?thesis by simp
qed

subsection \<open>Facts about the clock\<close>

lemma count_step_generated_at:
  "count_enrichment r (count_repo r (s\<lparr>GeneratedAt := g\<rparr>))
   = (count_enrichment r (count_repo r s))\<lparr>GeneratedAt := g\<rparr>"
  by (simp add: count_enrichment_def count_repo_def)

lemma count_foldl_generated_at:
  "foldl (\<lambda>s r. count_enrichment r (count_repo r s)) (s\<lparr>GeneratedAt := g\<rparr>) rs
   = (foldl (\<lambda>s r. count_enrichment r (count_repo r s)) s rs)\<lparr>GeneratedAt := g\<rparr>"
  by (induction rs arbitrary: s) (simp_all only: foldl.simps count_step_generated_at)

lemma aggregate_normal_form:
  "aggregate E now rs
   = (foldl (\<lambda>s r. count_enrichment r (count_repo r s)) (summ (agg_init E now)) rs)
       \<lparr>Size_Human := Size_Human (aggregate E now rs),
        Activity_MostRecentUpdate := Activity_MostRecentUpdate (aggregate E now rs),
        Activity_MostRecentPush := Activity_MostRecentPush (aggregate E now rs),
        Activity_OldestCreated := Activity_OldestCreated (aggregate E now rs),
        Activity_OldestUpdate := Activity_OldestUpdate (aggregate E now rs)\<rparr>"
  by (simp add: aggregate_def agg_finish_def summ_foldl)

lemma size_total_foldl:
  "Size_TotalKB (foldl (\<lambda>s r. count_enrichment r (count_repo r s)) s rs)
   = Size_TotalKB s + sum_list (map SizeKB rs)"
  by (induction rs arbitrary: s) (simp_all add: count_enrichment_def count_repo_def add.assoc)

lemma size_human: "Size_Human (aggregate E now rs) = humanSizeFromKB E (sum_list (map SizeKB rs))"
  by (simp add: aggregate_def agg_finish_def summ_foldl size_total_foldl agg_init_def)

lemma agg_init_clock:
  "summ (agg_init E now') = (summ (agg_init E now))\<lparr>GeneratedAt := time_Format E now'\<rparr>"
  by (simp add: agg_init_def)

lemma clock_only_in_generated_at:
  "aggregate E now' rs = (aggregate E now rs)\<lparr>GeneratedAt := time_Format E now'\<rparr>"
proof -
  let ?f = "\<lambda>s r. count_enrichment r (count_repo r s)"
  have "aggregate E now' rs
        = (foldl ?f (summ (agg_init E now)) rs)
            \<lparr>GeneratedAt := time_Format E now',
             Size_Human := Size_Human (aggregate E now' rs),
             Activity_MostRecentUpdate := Activity_MostRecentUpdate (aggregate E now' rs),
             Activity_MostRecentPush := Activity_MostRecentPush (aggregate E now' rs),
             Activity_OldestCreated := Activity_OldestCreated (aggregate E now' rs),
             Activity_OldestUpdate := Activity_OldestUpdate (aggregate E now' rs)\<rparr>"
    by (subst aggregate_normal_form) (simp only: agg_init_clock[of E now' now] count_foldl_generated_at)
  also have "\<dots>
        = (foldl ?f (summ (agg_init E now)) rs)
            \<lparr>GeneratedAt := time_Format E now',
             Size_Human := Size_Human (aggregate E now rs),
             Activity_MostRecentUpdate := Activity_MostRecentUpdate (aggregate E now rs),
             Activity_MostRecentPush := Activity_MostRecentPush (aggregate E now rs),
             Activity_OldestCreated := Activity_OldestCreated (aggregate E now rs),
             Activity_OldestUpdate := Activity_OldestUpdate (aggregate E now rs)\<rparr>"
    by (simp only: size_human most_recent_update most_recent_push oldest_created oldest_update)
  also have "\<dots> = (aggregate E now rs)\<lparr>GeneratedAt := time_Format E now'\<rparr>"
    by (subst (2) aggregate_normal_form) simp
  finally show ?thesis .
qed

lemma generated_at: "GeneratedAt (aggregate E now rs) = time_Format E now"
  using clock_only_in_generated_at[of E now rs now]
  by (metis summary.select_convs(1) summary.surjective summary.update_convs(1))

subsection \<open>Facts about bytes and characters\<close>

lemma utf8_characters_append:
  "utf8_characters (a @ b) = utf8_characters a + utf8_characters b"
  by (simp add: utf8_characters_def)

lemma utf8_characters_repeat:
  "utf8_characters (concat (replicate n w)) = n * utf8_characters w"
  by (induction n) (simp_all add: utf8_characters_append, simp add: utf8_characters_def)

lemma length_repeat: "length (concat (replicate n w)) = n * length w"
  by (induction n) simp_all

lemma take_repeat:
  "take (m * length w) (concat (replicate (m + k) w)) = concat (replicate m w)"
  by (simp add: replicate_add length_repeat)

subsection \<open>The last commit\<close>

text \<open>
  C7. When the commits endpoint answers with a status from 200 to 299 and a body that
  decodes to an empty list of commits, \<open>fetchLastCommit\<close> returns an empty date, an empty
  message and no error, after exactly one request; \<open>fetchLastCommitAt\<close> of the earlier
  revision returns an empty date and no error.
\<close>

theorem fetchLastCommit_zero_commits:
  assumes "client E tr (commits_url fullName) token = Answers status body"
    and "200 \<le> status" and "status < 300"
    and "unmarshal_commits E body = Inr []"
  shows "fetchLastCommit E token fullName tr =
           (([], [], None), tr @ [Get (commits_url fullName) token])
       \<and> fetchLastCommitAt E token fullName tr =
           (([], None), tr @ [Get (commits_url fullName) token])"
  using assms fetchLastCommitAt_zero_commits[OF assms]
  by (simp add: fetchLastCommit_def doGET_def)

theorem fetchLastCommit_zero_commits_witness:
  "fetchLastCommit
     (offline_deps\<lparr>client := answers_in_turn [Answers 200 ''[]''],
                   unmarshal_commits := decode_table [(''[]'', [])]\<rparr>)
     ''token'' ''octocat/empty'' []
   = (([], [], None), [Get ''https://api.github.com/repos/octocat/empty/commits?per_page=1'' ''token''])
   \<and> fetchLastCommitAt
     (offline_deps\<lparr>client := answers_in_turn [Answers 200 ''[]''],
                   unmarshal_commits := decode_table [(''[]'', [])]\<rparr>)
     ''token'' ''octocat/empty'' []
   = (([], None), [Get ''https://api.github.com/repos/octocat/empty/commits?per_page=1'' ''token''])"
  using fetchLastCommit_zero_commits
    [of "offline_deps\<lparr>client := answers_in_turn [Answers 200 ''[]''],
                       unmarshal_commits := decode_table [(''[]'', [])]\<rparr>"
        "[]" "''octocat/empty''" "''token''" 200 "''[]''"]
  by (simp add: answers_in_turn_def decode_table_def commits_url_def)

text \<open>
  C6. The cap is 100 bytes, not 100 characters. Let the commits endpoint answer with a
  status from 200 to 299 and a body that decodes to a list whose first commit is \<open>c\<close>.
  If the message of \<open>c\<close> is longer than 100 bytes, \<open>fetchLastCommit\<close> returns its first
  100 bytes followed by \<open>...\<close>; if it has at most 100 bytes, the message is returned as
  it is. In both cases the date is the commit's and the error is nil. (\<open>length\<close> and
  \<open>take\<close> on a \<open>string\<close> are Go's \<open>len\<close> and slice, which work on bytes.)
\<close>

theorem fetchLastCommit_truncates:
  assumes "client E tr (commits_url fullName) token = Answers status body"
    and "200 \<le> status" and "status < 300"
    and "unmarshal_commits E body = Inr (c # cs)"
  shows "(length (Commit_Message c) > 100 \<longrightarrow>
            fst (fetchLastCommit E token fullName tr)
            = (Commit_Author_Date c, take 100 (Commit_Message c) @ ''...'', None))
       \<and> (length (Commit_Message c) \<le> 100 \<longrightarrow>
            fst (fetchLastCommit E token fullName tr)
            = (Commit_Author_Date c, Commit_Message c, None))"
  using assms by (simp add: fetchLastCommit_def doGET_def Let_def)

theorem fetchLastCommit_truncates_witness:
  "fst (fetchLastCommit
     (offline_deps\<lparr>client := answers_in_turn
          [Answers 200 (''[{\"commit\":{\"author\":{\"date\":\"2024-05-01T10:00:00Z\"},\"message\":\"''
                        @ replicate 101 CHR ''x'' @ ''\"}}]'')],
        unmarshal_commits := decode_table
          [(''[{\"commit\":{\"author\":{\"date\":\"2024-05-01T10:00:00Z\"},\"message\":\"''
              @ replicate 101 CHR ''x'' @ ''\"}}]'',
            [\<lparr>SHA = [], Commit_Author_Date = ''2024-05-01T10:00:00Z'',
              Commit_Message = replicate 101 CHR ''x''\<rparr>])]\<rparr>)
     ''token'' ''octocat/hello'' [])
   = (''2024-05-01T10:00:00Z'', replicate 100 CHR ''x'' @ ''...'', None)
   \<and> fst (fetchLastCommit
     (offline_deps\<lparr>client := answers_in_turn
          [Answers 200 (''[{\"commit\":{\"author\":{\"date\":\"2024-05-01T10:00:00Z\"},\"message\":\"''
                        @ replicate 100 CHR ''y'' @ ''\"}}]'')],
        unmarshal_commits := decode_table
          [(''[{\"commit\":{\"author\":{\"date\":\"2024-05-01T10:00:00Z\"},\"message\":\"''
              @ replicate 100 CHR ''y'' @ ''\"}}]'',
            [\<lparr>SHA = [], Commit_Author_Date = ''2024-05-01T10:00:00Z'',
              Commit_Message = replicate 100 CHR ''y''\<rparr>])]\<rparr>)
     ''token'' ''octocat/hello'' [])
   = (''2024-05-01T10:00:00Z'', replicate 100 CHR ''y'', None)"
proof -
  let ?body = "\<lambda>m. ''[{\"commit\":{\"author\":{\"date\":\"2024-05-01T10:00:00Z\"},\"message\":\"''
                    @ m @ ''\"}}]''"
  let ?c = "\<lambda>m. \<lparr>SHA = [], Commit_Author_Date = ''2024-05-01T10:00:00Z'', Commit_Message = m\<rparr>"
  let ?E = "\<lambda>m. offline_deps\<lparr>client := answers_in_turn [Answers 200 (?body m)],
                           unmarshal_commits := decode_table [(?body m, [?c m])]\<rparr>"
  have long: "length (Commit_Message (?c (replicate 101 CHR ''x''))) > 100
              \<longrightarrow> fst (fetchLastCommit (?E (replicate 101 CHR ''x'')) ''token'' ''octocat/hello'' [])
                = (Commit_Author_Date (?c (replicate 101 CHR ''x'')),
                   take 100 (Commit_Message (?c (replicate 101 CHR ''x''))) @ ''...'', None)"
    using fetchLastCommit_truncates
      [of "?E (replicate 101 CHR ''x'')" "[]" "''octocat/hello''" "''token''" 200
          "?body (replicate 101 CHR ''x'')" "?c (replicate 101 CHR ''x'')" "[]"]
    by (simp add: answers_in_turn_def decode_table_def)
  have short: "length (Commit_Message (?c (replicate 100 CHR ''y''))) \<le> 100
              \<longrightarrow> fst (fetchLastCommit (?E (replicate 100 CHR ''y'')) ''token'' ''octocat/hello'' [])
                = (Commit_Author_Date (?c (replicate 100 CHR ''y'')),
                   Commit_Message (?c (replicate 100 CHR ''y'')), None)"
    using fetchLastCommit_truncates
      [of "?E (replicate 100 CHR ''y'')" "[]" "''octocat/hello''" "''token''" 200
          "?body (replicate 100 CHR ''y'')" "?c (replicate 100 CHR ''y'')" "[]"]
    by (simp add: answers_in_turn_def decode_table_def)
  show ?thesis using long short by simp
qed

text \<open>
  Counted in characters the cap fails both ways. A message of 60 characters of two bytes
  each (\<open>0xC3 0xA9\<close>, the letter e with an acute accent) has 120 bytes and comes back
  as its first 50 characters and the marker; a message of 34 characters of three bytes
  each (\<open>0xE2 0x82 0xAC\<close>, the euro sign) has 102 bytes and is cut after the first byte
  of its last character.
\<close>

theorem fetchLastCommit_characters_counterexample:
  "utf8_characters (concat (replicate 60 [CHR 0xC3, CHR 0xA9])) = 60
   \<and> fst (fetchLastCommit
        (offline_deps\<lparr>client := answers_in_turn
             [Answers 200 (''[{\"commit\":{\"author\":{\"date\":\"2024-05-01T10:00:00Z\"},\"message\":\"''
                           @ concat (replicate 60 [CHR 0xC3, CHR 0xA9]) @ ''\"}}]'')],
           unmarshal_commits := decode_table
             [(''[{\"commit\":{\"author\":{\"date\":\"2024-05-01T10:00:00Z\"},\"message\":\"''
                 @ concat (replicate 60 [CHR 0xC3, CHR 0xA9]) @ ''\"}}]'',
               [\<lparr>SHA = [], Commit_Author_Date = ''2024-05-01T10:00:00Z'',
                 Commit_Message = concat (replicate 60 [CHR 0xC3, CHR 0xA9])\<rparr>])]\<rparr>)
        ''token'' ''octocat/hello'' [])
     = (''2024-05-01T10:00:00Z'', concat (replicate 50 [CHR 0xC3, CHR 0xA9]) @ ''...'', None)
   \<and> utf8_characters (concat (replicate 34 [CHR 0xE2, CHR 0x82, CHR 0xAC])) = 34
   \<and> fst (fetchLastCommit
        (offline_deps\<lparr>client := answers_in_turn
             [Answers 200 (''[{\"commit\":{\"author\":{\"date\":\"2024-05-01T10:00:00Z\"},\"message\":\"''
                           @ concat (replicate 34 [CHR 0xE2, CHR 0x82, CHR 0xAC]) @ ''\"}}]'')],
           unmarshal_commits := decode_table
             [(''[{\"commit\":{\"author\":{\"date\":\"2024-05-01T10:00:00Z\"},\"message\":\"''
                 @ concat (replicate 34 [CHR 0xE2, CHR 0x82, CHR 0xAC]) @ ''\"}}]'',
               [\<lparr>SHA = [], Commit_Author_Date = ''2024-05-01T10:00:00Z'',
                 Commit_Message = concat (replicate 34 [CHR 0xE2, CHR 0x82, CHR 0xAC])\<rparr>])]\<rparr>)
        ''token'' ''octocat/hello'' [])
     = (''2024-05-01T10:00:00Z'',
        concat (replicate 33 [CHR 0xE2, CHR 0x82, CHR 0xAC]) @ [CHR 0xE2] @ ''...'', None)"
proof -
  let ?e = "[CHR 0xC3, CHR 0xA9]"
  let ?u = "[CHR 0xE2, CHR 0x82, CHR 0xAC]"
  have ce: "utf8_characters ?e = 1" by (simp add: utf8_characters_def)
  have cu: "utf8_characters ?u = 1" by (simp add: utf8_characters_def)
  have te: "take 100 (concat (replicate 60 ?e)) = concat (replicate 50 ?e)"
    using take_repeat[of 50 ?e 10] by simp
  have "take 99 (concat (replicate 34 ?u)) = concat (replicate 33 ?u)"
    using take_repeat[of 33 ?u 1] by simp
  moreover have "concat (replicate 34 ?u) = concat (replicate 33 ?u) @ ?u"
    using replicate_add[of 33 1 ?u] by simp
  ultimately have tu: "take 100 (concat (replicate 34 ?u)) = concat (replicate 33 ?u) @ [CHR 0xE2]"
    by (simp add: length_repeat)
  show ?thesis
    by (simp add: fetchLastCommit_def doGET_def answers_in_turn_def decode_table_def Let_def
        utf8_characters_repeat ce cu length_repeat te tu)
qed

subsection \<open>The commit activity\<close>

text \<open>
  C5. Let the activity endpoint answer 202 on the first \<open>k\<close> attempts (\<open>k\<close> at most the
  length of the backoff table) and then answer with a status below 200 or from 300 on.
  Then \<open>fetchCommitActivity52W\<close> returns on that attempt: the weekly sequence is empty,
  the pending flag is false, the error is the one built from the status, and the trace
  ends with the request of that attempt, so that no further request or sleep follows.
  The same holds in the earlier revision, whose error also carries the body.
\<close>

theorem activity_fails_fast:
  assumes "k \<le> length backoffs"
    and "\<forall>i<k. \<exists>b. client E (tr @ retry_events (activity_url fullName) token 0 i)
                        (activity_url fullName) token = Answers 202 b"
    and "client E (tr @ retry_events (activity_url fullName) token 0 k)
           (activity_url fullName) token = Answers status body"
    and "status < 200 \<or> status \<ge> 300"
  shows "fetchCommitActivity52W E token fullName tr =
           (([], False, Some (Errorf ''commit_activity error %d'' status)),
            tr @ retry_events (activity_url fullName) token 0 k @ [Get (activity_url fullName) token])
       \<and> fetchCommitActivity52W_v1 E token fullName tr =
           (([], False, Some (Errorf_body ''commit_activity error %d: %s'' status body)),
            tr @ retry_events (activity_url fullName) token 0 k @ [Get (activity_url fullName) token])"
proof -
  let ?u = "activity_url fullName"
  have "activity_loop E token ?u 0 tr = activity_loop E token ?u (0 + k) (tr @ retry_events ?u token 0 k)"
    using assms(1,2) by (intro activity_loop_skip) auto
  also have "\<dots> = (([], False, Some (Errorf ''commit_activity error %d'' status)),
            (tr @ retry_events ?u token 0 k) @ [Get ?u token])"
    using assms(1,3,4) by (subst activity_loop.simps) (auto simp: doGET_Answers)
  finally show ?thesis
    using activity_v1_fails_fast[OF assms] by (simp add: fetchCommitActivity52W_def)
qed

theorem activity_fails_fast_witness:
  "fetchCommitActivity52W
     (offline_deps\<lparr>client := answers_in_turn [Answers 202 [], Answers 404 ''Not Found'']\<rparr>)
     ''token'' ''octocat/gone'' []
   = (([], False, Some (Errorf ''commit_activity error %d'' 404)),
      [Get ''https://api.github.com/repos/octocat/gone/stats/commit_activity'' ''token'',
       Sleep 700,
       Get ''https://api.github.com/repos/octocat/gone/stats/commit_activity'' ''token''])
   \<and> fetchCommitActivity52W_v1
     (offline_deps\<lparr>client := answers_in_turn [Answers 202 [], Answers 404 ''Not Found'']\<rparr>)
     ''token'' ''octocat/gone'' []
   = (([], False, Some (Errorf_body ''commit_activity error %d: %s'' 404 ''Not Found'')),
      [Get ''https://api.github.com/repos/octocat/gone/stats/commit_activity'' ''token'',
       Sleep 700,
       Get ''https://api.github.com/repos/octocat/gone/stats/commit_activity'' ''token''])"
proof -
  let ?E = "offline_deps\<lparr>client := answers_in_turn [Answers 202 [], Answers 404 ''Not Found'']\<rparr>"
  let ?u = "activity_url ''octocat/gone''"
  have k: "(1::nat) \<le> length backoffs" by (simp add: length_backoffs)
  have busy: "\<forall>i<1. \<exists>b. client ?E ([] @ retry_events ?u ''token'' 0 i) ?u ''token'' = Answers 202 b"
    by (simp add: answers_in_turn_retry)
  have gone: "client ?E ([] @ retry_events ?u ''token'' 0 1) ?u ''token'' = Answers 404 ''Not Found''"
    by (simp add: answers_in_turn_retry)
  have st: "(404::int) < 200 \<or> (404::int) \<ge> 300" by simp
  show ?thesis
    using activity_fails_fast[OF k busy gone st]
    by (simp add: retry_events_1 activity_url_def)
qed

text \<open>
  C1. If the activity endpoint answers 202 on every attempt, the last one included,
  \<open>fetchCommitActivity52W\<close> makes five requests with the four sleeps of the backoff table
  (700, 1200, 2000 and 3000 ms) between them and returns the pending flag true, an
  empty weekly sequence and no error. If it answers 202 on the first \<open>k\<close> attempts
  (\<open>k\<close> at most 4) and then with another status from 200 to 299, the function returns
  on that attempt with the pending flag false: when the body decodes, the result is the
  decoded sequence, whatever its length, and no error; when the body does not decode,
  the result is the empty sequence and the decoder's error. The earlier revision does
  the same and returns the totals of the decoded sequence.
\<close>

theorem fetchCommitActivity52W_outcomes:
  "((\<forall>i\<le>length backoffs. \<exists>b.
        client E (tr @ retry_events (activity_url fullName) token 0 i)
          (activity_url fullName) token = Answers 202 b)
      \<longrightarrow> fetchCommitActivity52W E token fullName tr =
            (([], True, None),
             tr @ [Get (activity_url fullName) token, Sleep 700,
                   Get (activity_url fullName) token, Sleep 1200,
                   Get (activity_url fullName) token, Sleep 2000,
                   Get (activity_url fullName) token, Sleep 3000,
                   Get (activity_url fullName) token])
          \<and> fetchCommitActivity52W_v1 E token fullName tr =
            (([], True, None),
             tr @ [Get (activity_url fullName) token, Sleep 700,
                   Get (activity_url fullName) token, Sleep 1200,
                   Get (activity_url fullName) token, Sleep 2000,
                   Get (activity_url fullName) token, Sleep 3000,
                   Get (activity_url fullName) token]))
   \<and> (\<forall>k status body.
         k \<le> length backoffs
         \<and> (\<forall>i<k. \<exists>b. client E (tr @ retry_events (activity_url fullName) token 0 i)
                          (activity_url fullName) token = Answers 202 b)
         \<and> client E (tr @ retry_events (activity_url fullName) token 0 k)
               (activity_url fullName) token = Answers status body
         \<and> 200 \<le> status \<and> status < 300 \<and> status \<noteq> 202
         \<longrightarrow> fetchCommitActivity52W E token fullName tr =
               ((case unmarshal_weeks E body of
                   Inr weeks \<Rightarrow> (weeks, False, None)
                 | Inl err \<Rightarrow> ([], False, Some err)),
                tr @ retry_events (activity_url fullName) token 0 k
                   @ [Get (activity_url fullName) token])
             \<and> fetchCommitActivity52W_v1 E token fullName tr =
               ((case unmarshal_weeks E body of
                   Inr weeks \<Rightarrow> (map weeklyStat.Total weeks, False, None)
                 | Inl err \<Rightarrow> ([], False, Some err)),
                tr @ retry_events (activity_url fullName) token 0 k
                   @ [Get (activity_url fullName) token]))"
proof (intro conjI impI allI)
  let ?u = "activity_url fullName"
  assume busy: "\<forall>i\<le>length backoffs. \<exists>b.
        client E (tr @ retry_events ?u token 0 i) ?u token = Answers 202 b"
  then have "\<forall>i<4. \<exists>b. client E (tr @ retry_events ?u token 0 i) ?u token = Answers 202 b"
    by (simp add: length_backoffs)
  then have "activity_loop E token ?u 0 tr
             = activity_loop E token ?u (0 + 4) (tr @ retry_events ?u token 0 4)"
    by (intro activity_loop_skip) (simp_all add: length_backoffs)
  moreover obtain b where "client E (tr @ retry_events ?u token 0 4) ?u token = Answers 202 b"
    using busy by (auto simp: length_backoffs)
  then have "activity_loop E token ?u (0 + 4) (tr @ retry_events ?u token 0 4)
             = (([], True, None), (tr @ retry_events ?u token 0 4) @ [Get ?u token])"
    by (subst activity_loop.simps) (simp add: doGET_Answers length_backoffs)
  ultimately show "fetchCommitActivity52W E token fullName tr =
            (([], True, None),
             tr @ [Get ?u token, Sleep 700, Get ?u token, Sleep 1200,
                   Get ?u token, Sleep 2000, Get ?u token, Sleep 3000, Get ?u token])"
    by (simp add: fetchCommitActivity52W_def retry_events_4)
  show "fetchCommitActivity52W_v1 E token fullName tr =
            (([], True, None),
             tr @ [Get ?u token, Sleep 700, Get ?u token, Sleep 1200,
                   Get ?u token, Sleep 2000, Get ?u token, Sleep 3000, Get ?u token])"
    using activity_v1_gives_up_pending[OF busy] by (simp add: retry_events_4)
next
  fix k status body
  let ?u = "activity_url fullName"
  assume h: "k \<le> length backoffs
         \<and> (\<forall>i<k. \<exists>b. client E (tr @ retry_events ?u token 0 i) ?u token = Answers 202 b)
         \<and> client E (tr @ retry_events ?u token 0 k) ?u token = Answers status body
         \<and> 200 \<le> status \<and> status < 300 \<and> status \<noteq> 202"
  then have "activity_loop E token ?u 0 tr
             = activity_loop E token ?u (0 + k) (tr @ retry_events ?u token 0 k)"
    by (intro activity_loop_skip) auto
  also have "\<dots> = ((case unmarshal_weeks E body of
                   Inr weeks \<Rightarrow> (weeks, False, None)
                 | Inl err \<Rightarrow> ([], False, Some err)),
                (tr @ retry_events ?u token 0 k) @ [Get ?u token])"
    using h by (subst activity_loop.simps) (auto simp: doGET_Answers split: sum.splits)
  finally show "fetchCommitActivity52W E token fullName tr =
               ((case unmarshal_weeks E body of
                   Inr weeks \<Rightarrow> (weeks, False, None)
                 | Inl err \<Rightarrow> ([], False, Some err)),
                tr @ retry_events ?u token 0 k @ [Get ?u token])"
    by (simp add: fetchCommitActivity52W_def)
  show "fetchCommitActivity52W_v1 E token fullName tr =
               ((case unmarshal_weeks E body of
                   Inr weeks \<Rightarrow> (map weeklyStat.Total weeks, False, None)
                 | Inl err \<Rightarrow> ([], False, Some err)),
                tr @ retry_events ?u token 0 k @ [Get ?u token])"
    using h by (intro activity_v1_succeeds) auto
qed

theorem fetchCommitActivity52W_outcomes_witness:
  "fetchCommitActivity52W
     (offline_deps\<lparr>client := answers_in_turn
        [Answers 202 [], Answers 202 [], Answers 202 [], Answers 202 [], Answers 202 []]\<rparr>)
     ''token'' ''octocat/busy'' []
   = (([], True, None),
      [Get ''https://api.github.com/repos/octocat/busy/stats/commit_activity'' ''token'', Sleep 700,
       Get ''https://api.github.com/repos/octocat/busy/stats/commit_activity'' ''token'', Sleep 1200,
       Get ''https://api.github.com/repos/octocat/busy/stats/commit_activity'' ''token'', Sleep 2000,
       Get ''https://api.github.com/repos/octocat/busy/stats/commit_activity'' ''token'', Sleep 3000,
       Get ''https://api.github.com/repos/octocat/busy/stats/commit_activity'' ''token''])
   \<and> fetchCommitActivity52W
     (offline_deps\<lparr>client := answers_in_turn
                      [Answers 202 [], Answers 200 ''[{\"total\":3},{\"total\":4}]''],
                   unmarshal_weeks := decode_table
                      [(''[{\"total\":3},{\"total\":4}]'',
                        [\<lparr>weeklyStat.Total = 3, Week = 0, Days = []\<rparr>,
                         \<lparr>weeklyStat.Total = 4, Week = 0, Days = []\<rparr>])]\<rparr>)
     ''token'' ''octocat/ready'' []
   = (([\<lparr>weeklyStat.Total = 3, Week = 0, Days = []\<rparr>,
        \<lparr>weeklyStat.Total = 4, Week = 0, Days = []\<rparr>], False, None),
      [Get ''https://api.github.com/repos/octocat/ready/stats/commit_activity'' ''token'', Sleep 700,
       Get ''https://api.github.com/repos/octocat/ready/stats/commit_activity'' ''token''])
   \<and> fetchCommitActivity52W_v1
     (offline_deps\<lparr>client := answers_in_turn
                      [Answers 202 [], Answers 200 ''[{\"total\":3},{\"total\":4}]''],
                   unmarshal_weeks := decode_table
                      [(''[{\"total\":3},{\"total\":4}]'',
                        [\<lparr>weeklyStat.Total = 3, Week = 0, Days = []\<rparr>,
                         \<lparr>weeklyStat.Total = 4, Week = 0, Days = []\<rparr>])]\<rparr>)
     ''token'' ''octocat/ready'' []
   = (([3, 4], False, None),
      [Get ''https://api.github.com/repos/octocat/ready/stats/commit_activity'' ''token'', Sleep 700,
       Get ''https://api.github.com/repos/octocat/ready/stats/commit_activity'' ''token''])"
proof -
  let ?Ea = "offline_deps\<lparr>client := answers_in_turn
        [Answers 202 [], Answers 202 [], Answers 202 [], Answers 202 [], Answers 202 []]\<rparr>"
  let ?ua = "activity_url ''octocat/busy''"
  let ?body = "''[{\"total\":3},{\"total\":4}]''"
  let ?weeks = "[\<lparr>weeklyStat.Total = 3, Week = 0, Days = []\<rparr>,
                 \<lparr>weeklyStat.Total = 4, Week = 0, Days = []\<rparr>]"
  let ?Eb = "offline_deps\<lparr>client := answers_in_turn [Answers 202 [], Answers 200 ?body],
                         unmarshal_weeks := decode_table [(?body, ?weeks)]\<rparr>"
  let ?ub = "activity_url ''octocat/ready''"
  have busy: "\<forall>i\<le>length backoffs. \<exists>b.
      client ?Ea ([] @ retry_events ?ua ''token'' 0 i) ?ua ''token'' = Answers 202 b"
  proof (intro allI impI)
    fix i :: nat assume "i \<le> length backoffs"
    then have "i < 5" by (simp add: length_backoffs)
    then have "i = 0 \<or> i = 1 \<or> i = 2 \<or> i = 3 \<or> i = 4" by arith
    then show "\<exists>b. client ?Ea ([] @ retry_events ?ua ''token'' 0 i) ?ua ''token'' = Answers 202 b"
      by (auto simp: answers_in_turn_retry)
  qed
  have a: "fetchCommitActivity52W ?Ea ''token'' ''octocat/busy'' [] =
            (([], True, None),
             [] @ [Get ?ua ''token'', Sleep 700, Get ?ua ''token'', Sleep 1200,
                   Get ?ua ''token'', Sleep 2000, Get ?ua ''token'', Sleep 3000,
                   Get ?ua ''token''])"
    using fetchCommitActivity52W_outcomes[of ?Ea "[]" "''octocat/busy''" "''token''"] busy
    by blast
  have ready: "(1::nat) \<le> length backoffs
         \<and> (\<forall>i<1. \<exists>b. client ?Eb ([] @ retry_events ?ub ''token'' 0 i) ?ub ''token'' = Answers 202 b)
         \<and> client ?Eb ([] @ retry_events ?ub ''token'' 0 1) ?ub ''token'' = Answers 200 ?body
         \<and> (200::int) \<le> 200 \<and> (200::int) < 300 \<and> (200::int) \<noteq> 202"
    by (simp add: answers_in_turn_retry length_backoffs)
  have b: "fetchCommitActivity52W ?Eb ''token'' ''octocat/ready'' [] =
               ((case unmarshal_weeks ?Eb ?body of
                   Inr weeks \<Rightarrow> (weeks, False, None)
                 | Inl err \<Rightarrow> ([], False, Some err)),
                [] @ retry_events ?ub ''token'' 0 1 @ [Get ?ub ''token''])
          \<and> fetchCommitActivity52W_v1 ?Eb ''token'' ''octocat/ready'' [] =
               ((case unmarshal_weeks ?Eb ?body of
                   Inr weeks \<Rightarrow> (map weeklyStat.Total weeks, False, None)
                 | Inl err \<Rightarrow> ([], False, Some err)),
                [] @ retry_events ?ub ''token'' 0 1 @ [Get ?ub ''token''])"
    using fetchCommitActivity52W_outcomes[of ?Eb "[]" "''octocat/ready''" "''token''"] ready
    by blast
  show ?thesis
    using a b by (simp add: activity_url_def decode_table_def retry_events_1)
qed

text \<open>
  Two successful answers that do not give a weekly sequence of 52 entries: a status 204
  with an empty body, which \<open>encoding/json\<close> rejects, ends in an error; a status 200
  with the body \<open>[]\<close> gives an empty sequence.
\<close>

theorem fetchCommitActivity52W_success_counterexample:
  "client (offline_deps\<lparr>client := answers_in_turn [Answers 204 []]\<rparr>) []
      (activity_url ''octocat/empty'') ''token'' = Answers 204 []
   \<and> fst (fetchCommitActivity52W
            (offline_deps\<lparr>client := answers_in_turn [Answers 204 []]\<rparr>)
            ''token'' ''octocat/empty'' [])
     = ([], False, Some (LibError ''cannot decode''))
   \<and> client (offline_deps\<lparr>client := answers_in_turn [Answers 200 ''[]''],
                           unmarshal_weeks := decode_table [(''[]'', [])]\<rparr>) []
      (activity_url ''octocat/new'') ''token'' = Answers 200 ''[]''
   \<and> fst (fetchCommitActivity52W
            (offline_deps\<lparr>client := answers_in_turn [Answers 200 ''[]''],
                          unmarshal_weeks := decode_table [(''[]'', [])]\<rparr>)
            ''token'' ''octocat/new'' [])
     = ([], False, None)
   \<and> length (fst (fst (fetchCommitActivity52W
            (offline_deps\<lparr>client := answers_in_turn [Answers 200 ''[]''],
                          unmarshal_weeks := decode_table [(''[]'', [])]\<rparr>)
            ''token'' ''octocat/new'' []))) \<noteq> 52"
  by (simp add: fetchCommitActivity52W_def activity_loop.simps doGET_def answers_in_turn_def
      decode_table_def offline_deps_def backoffs_def)

subsection \<open>The contributors\<close>

text \<open>
  C9. \<open>fetchContributors\<close> makes one request, to the URL that asks for pages of 10
  (\<open>per_page=10\<close>). When the endpoint answers with a status from 200 to 299 and a
  body that decodes to a list of contributors, it returns that list, the length of that
  list as the count, and no error. A full page of 10 therefore gives the count 10,
  whatever the number of contributors the repository has: the count is computed from
  the page received and from nothing else.
\<close>

theorem fetchContributors_count:
  assumes "client E tr (contributors_url fullName) token = Answers status body"
    and "200 \<le> status" and "status < 300"
    and "unmarshal_contribs E body = Inr contribs"
  shows "fetchContributors E token fullName tr
         = ((contribs, of_nat (length contribs), None),
            tr @ [Get (''https://api.github.com/repos/'' @ fullName @ ''/contributors?per_page=10'')
                      token])
       \<and> (length contribs = 10 \<longrightarrow> fst (snd (fst (fetchContributors E token fullName tr))) = 10)
       \<and> (length contribs < 2 ^ 63 \<longrightarrow>
            sint (fst (snd (fst (fetchContributors E token fullName tr)))) = int (length contribs))"
proof -
  have r: "fetchContributors E token fullName tr
         = ((contribs, of_nat (length contribs), None),
            tr @ [Get (''https://api.github.com/repos/'' @ fullName @ ''/contributors?per_page=10'')
                      token])"
    using assms by (auto simp: fetchContributors_def doGET_def Let_def contributors_url_def)
  show ?thesis
    unfolding r by (auto simp: sint_of_nat_small)
qed

theorem fetchContributors_count_witness:
  "fetchContributors
     (offline_deps\<lparr>client := answers_in_turn
          [Answers 200 (''[{\"login\":\"a\",\"contributions\":1}''
                        @ concat (replicate 9 '',{\"login\":\"a\",\"contributions\":1}'') @ '']'')],
        unmarshal_contribs := decode_table
          [(''[{\"login\":\"a\",\"contributions\":1}''
              @ concat (replicate 9 '',{\"login\":\"a\",\"contributions\":1}'') @ '']'',
            replicate 10 \<lparr>Login = ''a'', Contributions = 1\<rparr>)]\<rparr>)
     ''token'' ''octocat/hello'' []
   = ((replicate 10 \<lparr>Login = ''a'', Contributions = 1\<rparr>, 10, None),
      [Get ''https://api.github.com/repos/octocat/hello/contributors?per_page=10'' ''token''])"
  using fetchContributors_count
    [of "offline_deps\<lparr>client := answers_in_turn
          [Answers 200 (''[{\"login\":\"a\",\"contributions\":1}''
                        @ concat (replicate 9 '',{\"login\":\"a\",\"contributions\":1}'') @ '']'')],
        unmarshal_contribs := decode_table
          [(''[{\"login\":\"a\",\"contributions\":1}''
              @ concat (replicate 9 '',{\"login\":\"a\",\"contributions\":1}'') @ '']'',
            replicate 10 \<lparr>Login = ''a'', Contributions = 1\<rparr>)]\<rparr>"
        "[]" "''octocat/hello''" "''token''" 200
        "''[{\"login\":\"a\",\"contributions\":1}''
           @ concat (replicate 9 '',{\"login\":\"a\",\"contributions\":1}'') @ '']''"
        "replicate 10 \<lparr>Login = ''a'', Contributions = 1\<rparr>"]
  by (simp add: answers_in_turn_def decode_table_def contributors_url_def)

subsection \<open>The summary\<close>

text \<open>
  C3. For every record list, the summary's total of commits is the sum of the records'
  \<open>TotalCommits\<close>, computed as the program computes it, in 64-bit arithmetic; when the
  sum of the signed values fits in 64 bits, it is that sum. For every language key
  other than the empty string, the count the summary holds for the key is the number of
  records with that language.
\<close>

theorem summary_totals:
  "Engagement_TotalCommits (aggregate E now rs) = sum_list (map TotalCommits rs)
   \<and> (k \<noteq> [] \<longrightarrow>
        map_get (Languages (aggregate E now rs)) k
        = of_nat (length (filter (\<lambda>r. Language r = k) rs)))
   \<and> (- (2 ^ 63) \<le> (\<Sum>r\<leftarrow>rs. sint (TotalCommits r)) \<and> (\<Sum>r\<leftarrow>rs. sint (TotalCommits r)) < 2 ^ 63 \<longrightarrow>
        sint (Engagement_TotalCommits (aggregate E now rs)) = (\<Sum>r\<leftarrow>rs. sint (TotalCommits r)))
   \<and> (k \<noteq> [] \<and> length rs < 2 ^ 63 \<longrightarrow>
        sint (map_get (Languages (aggregate E now rs)) k)
        = int (length (filter (\<lambda>r. Language r = k) rs)))"
proof -
  have tot: "Engagement_TotalCommits (aggregate E now rs) = sum_list (map TotalCommits rs)"
    by (simp add: aggregate_def agg_finish_def summ_foldl total_commits_foldl agg_init_def)
  have lang: "map_get (Languages (aggregate E now rs)) k
        = of_nat (length (filter (\<lambda>r. Language r = k) rs))" if "k \<noteq> []"
  proof -
    have "map_get (Languages (summ (agg_init E now))) k = 0"
      by (simp add: agg_init_def map_get_def)
    then show ?thesis
      using that by (simp add: aggregate_def agg_finish_def summ_foldl languages_foldl)
  qed
  have itot: "sint (Engagement_TotalCommits (aggregate E now rs)) = (\<Sum>r\<leftarrow>rs. sint (TotalCommits r))"
    if "- (2 ^ 63) \<le> (\<Sum>r\<leftarrow>rs. sint (TotalCommits r)) \<and> (\<Sum>r\<leftarrow>rs. sint (TotalCommits r)) < 2 ^ 63"
  proof -
    have "sint (sum_list (map TotalCommits rs)) = signed_take_bit 63 (\<Sum>r\<leftarrow>rs. sint (TotalCommits r))"
      by (simp add: sint_sum_list comp_def)
    also have "\<dots> = (\<Sum>r\<leftarrow>rs. sint (TotalCommits r))"
      using that by (intro signed_take_bit_int_eq_self) auto
    finally show ?thesis by (simp add: tot)
  qed
  have ilang: "sint (map_get (Languages (aggregate E now rs)) k)
        = int (length (filter (\<lambda>r. Language r = k) rs))" if "k \<noteq> [] \<and> length rs < 2 ^ 63"
  proof -
    have "length (filter (\<lambda>r. Language r = k) rs) \<le> length rs" by simp
    with that have "length (filter (\<lambda>r. Language r = k) rs) < 2 ^ 63" by linarith
    then show ?thesis using that by (simp add: lang sint_of_nat_small)
  qed
  show ?thesis using tot lang itot ilang by blast
qed

theorem summary_totals_witness:
  "Engagement_TotalCommits
     (aggregate offline_deps 0
        [blank_repo\<lparr>Language := ''Go'', TotalCommits := 5\<rparr>,
         blank_repo\<lparr>Language := ''Go'', TotalCommits := 7\<rparr>,
         blank_repo\<lparr>Language := ''Rust'', TotalCommits := 1\<rparr>,
         blank_repo\<lparr>TotalCommits := 2\<rparr>]) = 15
   \<and> map_get (Languages
     (aggregate offline_deps 0
        [blank_repo\<lparr>Language := ''Go'', TotalCommits := 5\<rparr>,
         blank_repo\<lparr>Language := ''Go'', TotalCommits := 7\<rparr>,
         blank_repo\<lparr>Language := ''Rust'', TotalCommits := 1\<rparr>,
         blank_repo\<lparr>TotalCommits := 2\<rparr>])) ''Go'' = 2"
  using summary_totals
    [of offline_deps 0
        "[blank_repo\<lparr>Language := ''Go'', TotalCommits := 5\<rparr>,
          blank_repo\<lparr>Language := ''Go'', TotalCommits := 7\<rparr>,
          blank_repo\<lparr>Language := ''Rust'', TotalCommits := 1\<rparr>,
          blank_repo\<lparr>TotalCommits := 2\<rparr>]" "''Go''"]
  by (simp add: blank_repo_def)

text \<open>
  C8. Each of the four time fields of the summary is computed from the records whose
  timestamp parses, and from no other record: the most recent update and the most
  recent push are the latest of the parsed \<open>UpdatedAt\<close> and \<open>PushedAt\<close> times, the
  oldest creation and the oldest update the earliest of the parsed \<open>CreatedAt\<close> and
  \<open>UpdatedAt\<close> times, printed in UTC, and the field stays empty when no record's
  timestamp parses. A timestamp that does not parse changes nothing else: every other
  field of the summary is the same whatever the three timestamp strings of the records
  are.
\<close>

theorem activity_times_skip_malformed:
  "Activity_MostRecentUpdate (aggregate E now rs) =
     (if List.map_filter (\<lambda>r. time_Parse E (UpdatedAt r)) rs = [] then []
      else time_Format E (Max (set (List.map_filter (\<lambda>r. time_Parse E (UpdatedAt r)) rs))))
   \<and> Activity_MostRecentPush (aggregate E now rs) =
     (if List.map_filter (\<lambda>r. time_Parse E (PushedAt r)) rs = [] then []
      else time_Format E (Max (set (List.map_filter (\<lambda>r. time_Parse E (PushedAt r)) rs))))
   \<and> Activity_OldestCreated (aggregate E now rs) =
     (if List.map_filter (\<lambda>r. time_Parse E (CreatedAt r)) rs = [] then []
      else time_Format E (Min (set (List.map_filter (\<lambda>r. time_Parse E (CreatedAt r)) rs))))
   \<and> Activity_OldestUpdate (aggregate E now rs) =
     (if List.map_filter (\<lambda>r. time_Parse E (UpdatedAt r)) rs = [] then []
      else time_Format E (Min (set (List.map_filter (\<lambda>r. time_Parse E (UpdatedAt r)) rs))))
   \<and> (aggregate E now (map (\<lambda>r. r\<lparr>CreatedAt := fc r, UpdatedAt := fu r, PushedAt := fp r\<rparr>) rs))
        \<lparr>Activity_MostRecentUpdate := x1, Activity_MostRecentPush := x2,
         Activity_OldestCreated := x3, Activity_OldestUpdate := x4\<rparr>
     = (aggregate E now rs)
        \<lparr>Activity_MostRecentUpdate := x1, Activity_MostRecentPush := x2,
         Activity_OldestCreated := x3, Activity_OldestUpdate := x4\<rparr>"
  by (intro conjI most_recent_update most_recent_push oldest_created oldest_update
      other_fields_ignore_timestamps)

theorem activity_times_skip_malformed_witness:
  "Activity_MostRecentUpdate
     (aggregate
        (offline_deps\<lparr>
           time_Parse := map_of [(''2024-01-01T00:00:00Z'', 1704067200),
                                 (''2024-03-01T00:00:00Z'', 1709251200)],
           time_Format := (\<lambda>t. if t = 1704067200 then ''2024-01-01T00:00:00Z''
                                else if t = 1709251200 then ''2024-03-01T00:00:00Z'' else [])\<rparr>)
        0
        [blank_repo\<lparr>UpdatedAt := ''2024-01-01T00:00:00Z''\<rparr>,
         blank_repo\<lparr>UpdatedAt := ''yesterday''\<rparr>,
         blank_repo\<lparr>UpdatedAt := ''2024-03-01T00:00:00Z''\<rparr>])
   = ''2024-03-01T00:00:00Z''
   \<and> Activity_OldestUpdate
     (aggregate
        (offline_deps\<lparr>
           time_Parse := map_of [(''2024-01-01T00:00:00Z'', 1704067200),
                                 (''2024-03-01T00:00:00Z'', 1709251200)],
           time_Format := (\<lambda>t. if t = 1704067200 then ''2024-01-01T00:00:00Z''
                                else if t = 1709251200 then ''2024-03-01T00:00:00Z'' else [])\<rparr>)
        0
        [blank_repo\<lparr>UpdatedAt := ''2024-01-01T00:00:00Z''\<rparr>,
         blank_repo\<lparr>UpdatedAt := ''yesterday''\<rparr>,
         blank_repo\<lparr>UpdatedAt := ''2024-03-01T00:00:00Z''\<rparr>])
   = ''2024-01-01T00:00:00Z''
   \<and> RepoCounts_Total
     (aggregate
        (offline_deps\<lparr>
           time_Parse := map_of [(''2024-01-01T00:00:00Z'', 1704067200),
                                 (''2024-03-01T00:00:00Z'', 1709251200)],
           time_Format := (\<lambda>t. if t = 1704067200 then ''2024-01-01T00:00:00Z''
                                else if t = 1709251200 then ''2024-03-01T00:00:00Z'' else [])\<rparr>)
        0
        [blank_repo\<lparr>UpdatedAt := ''2024-01-01T00:00:00Z''\<rparr>,
         blank_repo\<lparr>UpdatedAt := ''yesterday''\<rparr>,
         blank_repo\<lparr>UpdatedAt := ''2024-03-01T00:00:00Z''\<rparr>])
   = 3"
proof -
  let ?E = "offline_deps\<lparr>
           time_Parse := map_of [(''2024-01-01T00:00:00Z'', 1704067200),
                                 (''2024-03-01T00:00:00Z'', 1709251200)],
           time_Format := (\<lambda>t. if t = 1704067200 then ''2024-01-01T00:00:00Z''
                                else if t = 1709251200 then ''2024-03-01T00:00:00Z'' else [])\<rparr>"
  let ?rs = "[blank_repo\<lparr>UpdatedAt := ''2024-01-01T00:00:00Z''\<rparr>,
         blank_repo\<lparr>UpdatedAt := ''yesterday''\<rparr>,
         blank_repo\<lparr>UpdatedAt := ''2024-03-01T00:00:00Z''\<rparr>]"
  have times: "Activity_MostRecentUpdate (aggregate ?E 0 ?rs) = ''2024-03-01T00:00:00Z''
      \<and> Activity_OldestUpdate (aggregate ?E 0 ?rs) = ''2024-01-01T00:00:00Z''"
    using activity_times_skip_malformed[of ?E 0 ?rs]
    by simp
  have total: "RepoCounts_Total (aggregate ?E 0 ?rs) = 3"
    by (simp add: repo_total)
  show ?thesis using times total by simp
qed

subsection \<open>The pending flag\<close>

text \<open>
  C10. Every result of \<open>fetchCommitActivity52W\<close>, in either revision, with the pending
  flag true has an empty weekly sequence and no error, and every result with an error
  has the pending flag false. Hence in any list of records that were each built by \<open>main\<close> and enriched
  by a job, in whatever environment, a record with \<open>StatsCachePending\<close> true has an
  empty \<open>WeeklyCommits52W\<close>: no record is counted both by \<open>ReposWithStats52W\<close>, which
  counts the records with a non-empty \<open>WeeklyCommits52W\<close>, and by \<open>ReposStatsPending\<close>,
  which counts the pending ones.
\<close>

theorem pending_excludes_stats:
  "(case fst (fetchCommitActivity52W E token fullName tr) of
      (weekly, pending, err) \<Rightarrow>
        (pending \<longrightarrow> weekly = [] \<and> err = None) \<and> (err \<noteq> None \<longrightarrow> \<not> pending))
   \<and> (case fst (fetchCommitActivity52W_v1 E token fullName tr) of
      (weekly, pending, err) \<Rightarrow>
        (pending \<longrightarrow> weekly = [] \<and> err = None) \<and> (err \<noteq> None \<longrightarrow> \<not> pending))
   \<and> (let rs = map (\<lambda>(E', g, tr'). fst (enrich E' token' (base_out E0 g) tr')) jobs in
        (\<forall>r\<in>set rs. StatsCachePending r \<longrightarrow> WeeklyCommits52W r = [])
        \<and> filter (\<lambda>r. length (WeeklyCommits52W r) > 0 \<and> StatsCachePending r) rs = []
        \<and> Enrichment_ReposWithStats52W (aggregate E0 now rs)
            = of_nat (length (filter (\<lambda>r. length (WeeklyCommits52W r) > 0) rs))
        \<and> Enrichment_ReposStatsPending (aggregate E0 now rs)
            = of_nat (length (filter StatsCachePending rs))
        \<and> length (filter (\<lambda>r. length (WeeklyCommits52W r) > 0) rs)
            + length (filter StatsCachePending rs) \<le> length rs)"
proof -
  define rs where "rs = map (\<lambda>(E', g, tr'). fst (enrich E' token' (base_out E0 g) tr')) jobs"
  have inv: "\<forall>r\<in>set rs. StatsCachePending r \<longrightarrow> WeeklyCommits52W r = []"
    unfolding rs_def using enrich_pending[of "base_out E0 _"] base_out_not_pending by auto
  then have disj: "\<forall>r\<in>set rs. \<not> (length (WeeklyCommits52W r) > 0 \<and> StatsCachePending r)"
    by auto
  then have none: "filter (\<lambda>r. length (WeeklyCommits52W r) > 0 \<and> StatsCachePending r) rs = []"
    by (simp add: filter_empty_conv)
  have le: "length (filter (\<lambda>r. length (WeeklyCommits52W r) > 0) rs)
            + length (filter StatsCachePending rs) \<le> length rs"
    using disj by (rule disjoint_filters_length)
  have first: "case fst (fetchCommitActivity52W E token fullName tr) of
      (weekly, pending, err) \<Rightarrow>
        (pending \<longrightarrow> weekly = [] \<and> err = None) \<and> (err \<noteq> None \<longrightarrow> \<not> pending)"
    unfolding fetchCommitActivity52W_def by (rule activity_loop_invariant)
  show ?thesis
    using first fetchCommitActivity52W_v1_invariant[of E token fullName tr]
      inv none le coverage_counters[of E0 now rs]
    unfolding rs_def[symmetric] Let_def by blast
qed

theorem pending_excludes_stats_witness:
  "fst (fetchCommitActivity52W
          (offline_deps\<lparr>client := answers_in_turn
             [Answers 202 [], Answers 202 [], Answers 202 [], Answers 202 [], Answers 202 []]\<rparr>)
          ''token'' ''octocat/busy'' [])
   = ([], True, None)
   \<and> StatsCachePending
       (fst (enrich
          (offline_deps\<lparr>client := answers_in_turn
             [Answers 200 ''[]'',
              Answers 202 [], Answers 202 [], Answers 202 [], Answers 202 [], Answers 202 [],
              Answers 200 ''{}'', Answers 200 ''[]''],
             unmarshal_commits := decode_table [(''[]'', [])],
             unmarshal_langs := decode_table [(''{}'', [])],
             unmarshal_contribs := decode_table [(''[]'', [])]\<rparr>)
          ''token'' (base_out offline_deps (blank_gh\<lparr>gh_FullName := ''octocat/busy''\<rparr>)) []))
   \<and> WeeklyCommits52W
       (fst (enrich
          (offline_deps\<lparr>client := answers_in_turn
             [Answers 200 ''[]'',
              Answers 202 [], Answers 202 [], Answers 202 [], Answers 202 [], Answers 202 [],
              Answers 200 ''{}'', Answers 200 ''[]''],
             unmarshal_commits := decode_table [(''[]'', [])],
             unmarshal_langs := decode_table [(''{}'', [])],
             unmarshal_contribs := decode_table [(''[]'', [])]\<rparr>)
          ''token'' (base_out offline_deps (blank_gh\<lparr>gh_FullName := ''octocat/busy''\<rparr>)) []))
     = []
   \<and> Enrichment_ReposStatsPending
       (aggregate offline_deps 0
          [fst (enrich
             (offline_deps\<lparr>client := answers_in_turn
                [Answers 200 ''[]'',
                 Answers 202 [], Answers 202 [], Answers 202 [], Answers 202 [], Answers 202 [],
                 Answers 200 ''{}'', Answers 200 ''[]''],
                unmarshal_commits := decode_table [(''[]'', [])],
                unmarshal_langs := decode_table [(''{}'', [])],
                unmarshal_contribs := decode_table [(''[]'', [])]\<rparr>)
             ''token'' (base_out offline_deps (blank_gh\<lparr>gh_FullName := ''octocat/busy''\<rparr>)) [])])
     = 1
   \<and> Enrichment_ReposWithStats52W
       (aggregate offline_deps 0
          [fst (enrich
             (offline_deps\<lparr>client := answers_in_turn
                [Answers 200 ''[]'',
                 Answers 202 [], Answers 202 [], Answers 202 [], Answers 202 [], Answers 202 [],
                 Answers 200 ''{}'', Answers 200 ''[]''],
                unmarshal_commits := decode_table [(''[]'', [])],
                unmarshal_langs := decode_table [(''{}'', [])],
                unmarshal_contribs := decode_table [(''[]'', [])]\<rparr>)
             ''token'' (base_out offline_deps (blank_gh\<lparr>gh_FullName := ''octocat/busy''\<rparr>)) [])])
     = 0"
proof -
  let ?E1 = "offline_deps\<lparr>client := answers_in_turn
             [Answers 202 [], Answers 202 [], Answers 202 [], Answers 202 [], Answers 202 []]\<rparr>"
  let ?E2 = "offline_deps\<lparr>client := answers_in_turn
             [Answers 200 ''[]'',
              Answers 202 [], Answers 202 [], Answers 202 [], Answers 202 [], Answers 202 [],
              Answers 200 ''{}'', Answers 200 ''[]''],
             unmarshal_commits := decode_table [(''[]'', [])],
             unmarshal_langs := decode_table [(''{}'', [])],
             unmarshal_contribs := decode_table [(''[]'', [])]\<rparr>"
  let ?g = "blank_gh\<lparr>gh_FullName := ''octocat/busy''\<rparr>"
  let ?r = "fst (enrich ?E2 ''token'' (base_out offline_deps ?g) [])"
  have busy: "fst (fetchCommitActivity52W ?E1 ''token'' ''octocat/busy'' []) = ([], True, None)"
    by (simp add: fetchCommitActivity52W_def activity_loop.simps doGET_def answers_in_turn_def
        backoffs_def)
  have pending: "StatsCachePending ?r"
    by (simp add: enrich_def fetchLastCommit_def fetchCommitActivity52W_def activity_loop.simps
        fetchLanguages_def fetchContributors_def doGET_def answers_in_turn_def decode_table_def
        backoffs_def store_last_commit_def store_activity_def store_languages_def
        store_contributors_def base_out_def blank_gh_def Let_def)
  have all: "(let rs = map (\<lambda>(E', g, tr'). fst (enrich E' ''token'' (base_out offline_deps g) tr'))
                          [(?E2, ?g, [])] in
        (\<forall>r\<in>set rs. StatsCachePending r \<longrightarrow> WeeklyCommits52W r = [])
        \<and> filter (\<lambda>r. length (WeeklyCommits52W r) > 0 \<and> StatsCachePending r) rs = []
        \<and> Enrichment_ReposWithStats52W (aggregate offline_deps 0 rs)
            = of_nat (length (filter (\<lambda>r. length (WeeklyCommits52W r) > 0) rs))
        \<and> Enrichment_ReposStatsPending (aggregate offline_deps 0 rs)
            = of_nat (length (filter StatsCachePending rs))
        \<and> length (filter (\<lambda>r. length (WeeklyCommits52W r) > 0) rs)
            + length (filter StatsCachePending rs) \<le> length rs)"
    using pending_excludes_stats[of ?E1 "''token''" "''octocat/busy''" "[]" "''token''"
        offline_deps "[(?E2, ?g, [])]" 0]
    by blast
  from all pending have empty: "WeeklyCommits52W ?r = []"
    by (simp add: Let_def)
  from all pending empty have counters:
    "Enrichment_ReposStatsPending (aggregate offline_deps 0 [?r]) = 1
     \<and> Enrichment_ReposWithStats52W (aggregate offline_deps 0 [?r]) = 0"
    by (simp add: Let_def)
  show ?thesis using busy pending empty counters by simp
qed

subsection \<open>The enrichment job\<close>

text \<open>
  C4. A job always makes the four enricher calls, in the program's order: the trace
  it leaves holds the request of each. For each call, when it returns an error the
  fields of that enricher keep the values they had (their zero values in a record
  built by \<open>main\<close>), and when it returns no error they are set from its result (the
  language breakdown only when the result is not empty); the results of the other calls
  play no part. The error itself is dropped: the job changes nothing but the nine
  enrichment fields of its record, and after the four calls it only counts the job,
  prints the progress line when one is due and sleeps.
\<close>

theorem enrich_isolates_failures:
  "(case fetchLastCommit E token (FullName r) tr of (res1, tr1) \<Rightarrow>
    case fetchCommitActivity52W E token (FullName r) tr1 of (res2, tr2) \<Rightarrow>
    case fetchLanguages E token (FullName r) tr2 of (res3, tr3) \<Rightarrow>
    case fetchContributors E token (FullName r) tr3 of (res4, tr4) \<Rightarrow>
    case enrich E token r tr of (r', tr') \<Rightarrow>
      tr1 = tr @ [Get (commits_url (FullName r)) token]
      \<and> (\<exists>evs. tr2 = tr1 @ Get (activity_url (FullName r)) token # evs)
      \<and> tr3 = tr2 @ [Get (languages_url (FullName r)) token]
      \<and> tr4 = tr3 @ [Get (contributors_url (FullName r)) token]
      \<and> tr' = tr4
      \<and> (case res1 of (lastDate, lastMsg, e) \<Rightarrow>
            if e = None
            then LastCommitAt r' = lastDate \<and> LastCommitMessage r' = lastMsg
            else LastCommitAt r' = LastCommitAt r \<and> LastCommitMessage r' = LastCommitMessage r)
      \<and> (case res2 of (weeks, pending, e2) \<Rightarrow>
            if e2 = None
            then WeeklyStats52W r' = weeks \<and> StatsCachePending r' = pending
                 \<and> WeeklyCommits52W r' = map weeklyStat.Total weeks
                 \<and> TotalCommits r' = sum_list (map weeklyStat.Total weeks)
            else WeeklyStats52W r' = WeeklyStats52W r \<and> StatsCachePending r' = StatsCachePending r
                 \<and> WeeklyCommits52W r' = WeeklyCommits52W r \<and> TotalCommits r' = TotalCommits r)
      \<and> (case res3 of (langs, e3) \<Rightarrow>
            if e3 = None \<and> langs \<noteq> []
            then LanguageBreakdown r' = langs
            else LanguageBreakdown r' = LanguageBreakdown r)
      \<and> (case res4 of (contribs, count, e4) \<Rightarrow>
            if e4 = None
            then TopContributors r' = contribs \<and> ContributorCount r' = count
            else TopContributors r' = TopContributors r \<and> ContributorCount r' = ContributorCount r)
      \<and> r'\<lparr>LastCommitAt := a1, LastCommitMessage := a2, WeeklyCommits52W := a3,
            WeeklyStats52W := a4, LanguageBreakdown := a5, TopContributors := a6,
            ContributorCount := a7, TotalCommits := a8, StatsCachePending := a9\<rparr>
          = r\<lparr>LastCommitAt := a1, LastCommitMessage := a2, WeeklyCommits52W := a3,
              WeeklyStats52W := a4, LanguageBreakdown := a5, TopContributors := a6,
              ContributorCount := a7, TotalCommits := a8, StatsCachePending := a9\<rparr>)
   \<and> LastCommitAt (base_out E0 g) = [] \<and> LastCommitMessage (base_out E0 g) = []
   \<and> WeeklyCommits52W (base_out E0 g) = [] \<and> WeeklyStats52W (base_out E0 g) = []
   \<and> LanguageBreakdown (base_out E0 g) = [] \<and> TopContributors (base_out E0 g) = []
   \<and> ContributorCount (base_out E0 g) = 0 \<and> TotalCommits (base_out E0 g) = 0
   \<and> StatsCachePending (base_out E0 g) = False
   \<and> (i < length (out st) \<longrightarrow>
        job E token n i st =
          Some \<lparr> out = (out st)[i := fst (enrich E token (out st ! i) (trace st))],
                 completed = completed st + 1,
                 trace = snd (enrich E token (out st ! i) (trace st))
                         @ (if (completed st + 1) mod 5 = 0 \<or> completed st + 1 = n
                            then [Progress (completed st + 1) n] else [])
                         @ [Sleep 100] \<rparr>)"
proof -
  obtain res1 tr1 where f1: "fetchLastCommit E token (FullName r) tr = (res1, tr1)"
    by (metis surj_pair)
  obtain res2 tr2 where f2: "fetchCommitActivity52W E token (FullName r) tr1 = (res2, tr2)"
    by (metis surj_pair)
  obtain res3 tr3 where f3: "fetchLanguages E token (FullName r) tr2 = (res3, tr3)"
    by (metis surj_pair)
  obtain res4 tr4 where f4: "fetchContributors E token (FullName r) tr3 = (res4, tr4)"
    by (metis surj_pair)
  have t1: "tr1 = tr @ [Get (commits_url (FullName r)) token]"
    using fetchLastCommit_trace[of E token "FullName r" tr] f1 by simp
  have t2: "\<exists>evs. tr2 = tr1 @ Get (activity_url (FullName r)) token # evs"
    using fetchCommitActivity52W_trace[of E token "FullName r" tr1] f2 by simp
  have t3: "tr3 = tr2 @ [Get (languages_url (FullName r)) token]"
    using fetchLanguages_trace[of E token "FullName r" tr2] f3 by simp
  have t4: "tr4 = tr3 @ [Get (contributors_url (FullName r)) token]"
    using fetchContributors_trace[of E token "FullName r" tr3] f4 by simp
  have en: "enrich E token r tr
            = (store_contributors res4 (store_languages res3
                 (store_activity res2 (store_last_commit res1 r))), tr4)"
    by (simp add: enrich_def Let_def f1 f2 f3 f4)
  have fields: "(case enrich E token r tr of (r', tr') \<Rightarrow>
      tr' = tr4
      \<and> (case res1 of (lastDate, lastMsg, e) \<Rightarrow>
            if e = None
            then LastCommitAt r' = lastDate \<and> LastCommitMessage r' = lastMsg
            else LastCommitAt r' = LastCommitAt r \<and> LastCommitMessage r' = LastCommitMessage r)
      \<and> (case res2 of (weeks, pending, e2) \<Rightarrow>
            if e2 = None
            then WeeklyStats52W r' = weeks \<and> StatsCachePending r' = pending
                 \<and> WeeklyCommits52W r' = map weeklyStat.Total weeks
                 \<and> TotalCommits r' = sum_list (map weeklyStat.Total weeks)
            else WeeklyStats52W r' = WeeklyStats52W r \<and> StatsCachePending r' = StatsCachePending r
                 \<and> WeeklyCommits52W r' = WeeklyCommits52W r \<and> TotalCommits r' = TotalCommits r)
      \<and> (case res3 of (langs, e3) \<Rightarrow>
            if e3 = None \<and> langs \<noteq> []
            then LanguageBreakdown r' = langs
            else LanguageBreakdown r' = LanguageBreakdown r)
      \<and> (case res4 of (contribs, count, e4) \<Rightarrow>
            if e4 = None
            then TopContributors r' = contribs \<and> ContributorCount r' = count
            else TopContributors r' = TopContributors r \<and> ContributorCount r' = ContributorCount r)
      \<and> r'\<lparr>LastCommitAt := a1, LastCommitMessage := a2, WeeklyCommits52W := a3,
            WeeklyStats52W := a4, LanguageBreakdown := a5, TopContributors := a6,
            ContributorCount := a7, TotalCommits := a8, StatsCachePending := a9\<rparr>
          = r\<lparr>LastCommitAt := a1, LastCommitMessage := a2, WeeklyCommits52W := a3,
              WeeklyStats52W := a4, LanguageBreakdown := a5, TopContributors := a6,
              ContributorCount := a7, TotalCommits := a8, StatsCachePending := a9\<rparr>)"
    unfolding en
    by (cases res1; cases res2; cases res3; cases res4)
       (auto simp: store_last_commit_def store_activity_def store_languages_def
          store_contributors_def foldl_totals)
  have base: "LastCommitAt (base_out E0 g) = [] \<and> LastCommitMessage (base_out E0 g) = []
   \<and> WeeklyCommits52W (base_out E0 g) = [] \<and> WeeklyStats52W (base_out E0 g) = []
   \<and> LanguageBreakdown (base_out E0 g) = [] \<and> TopContributors (base_out E0 g) = []
   \<and> ContributorCount (base_out E0 g) = 0 \<and> TotalCommits (base_out E0 g) = 0
   \<and> StatsCachePending (base_out E0 g) = False"
    by (simp add: base_out_def)
  have jb: "i < length (out st) \<longrightarrow>
        job E token n i st =
          Some \<lparr> out = (out st)[i := fst (enrich E token (out st ! i) (trace st))],
                 completed = completed st + 1,
                 trace = snd (enrich E token (out st ! i) (trace st))
                         @ (if (completed st + 1) mod 5 = 0 \<or> completed st + 1 = n
                            then [Progress (completed st + 1) n] else [])
                         @ [Sleep 100] \<rparr>"
    by (simp add: job_def Let_def split: prod.splits)
  from fields have fields': "case enrich E token r tr of (r', tr') \<Rightarrow>
      tr1 = tr @ [Get (commits_url (FullName r)) token]
      \<and> (\<exists>evs. tr2 = tr1 @ Get (activity_url (FullName r)) token # evs)
      \<and> tr3 = tr2 @ [Get (languages_url (FullName r)) token]
      \<and> tr4 = tr3 @ [Get (contributors_url (FullName r)) token]
      \<and> tr' = tr4
      \<and> (case res1 of (lastDate, lastMsg, e) \<Rightarrow>
            if e = None
            then LastCommitAt r' = lastDate \<and> LastCommitMessage r' = lastMsg
            else LastCommitAt r' = LastCommitAt r \<and> LastCommitMessage r' = LastCommitMessage r)
      \<and> (case res2 of (weeks, pending, e2) \<Rightarrow>
            if e2 = None
            then WeeklyStats52W r' = weeks \<and> StatsCachePending r' = pending
                 \<and> WeeklyCommits52W r' = map weeklyStat.Total weeks
                 \<and> TotalCommits r' = sum_list (map weeklyStat.Total weeks)
            else WeeklyStats52W r' = WeeklyStats52W r \<and> StatsCachePending r' = StatsCachePending r
                 \<and> WeeklyCommits52W r' = WeeklyCommits52W r \<and> TotalCommits r' = TotalCommits r)
      \<and> (case res3 of (langs, e3) \<Rightarrow>
            if e3 = None \<and> langs \<noteq> []
            then LanguageBreakdown r' = langs
            else LanguageBreakdown r' = LanguageBreakdown r)
      \<and> (case res4 of (contribs, count, e4) \<Rightarrow>
            if e4 = None
            then TopContributors r' = contribs \<and> ContributorCount r' = count
            else TopContributors r' = TopContributors r \<and> ContributorCount r' = ContributorCount r)
      \<and> r'\<lparr>LastCommitAt := a1, LastCommitMessage := a2, WeeklyCommits52W := a3,
            WeeklyStats52W := a4, LanguageBreakdown := a5, TopContributors := a6,
            ContributorCount := a7, TotalCommits := a8, StatsCachePending := a9\<rparr>
          = r\<lparr>LastCommitAt := a1, LastCommitMessage := a2, WeeklyCommits52W := a3,
              WeeklyStats52W := a4, LanguageBreakdown := a5, TopContributors := a6,
              ContributorCount := a7, TotalCommits := a8, StatsCachePending := a9\<rparr>"
    using t1 t2 t3 t4 by (auto split: prod.splits)
  show ?thesis
    unfolding f1 f2 f3 f4 prod.case
    using fields' base jb by blast
qed

theorem enrich_isolates_failures_witness:
  "enrich
     (offline_deps\<lparr>client := answers_in_turn
          [Answers 500 ''Internal Server Error'',
           Answers 200 ''[{\"total\":3},{\"total\":4}]'',
           Answers 200 ''{\"Go\":100}'',
           Answers 404 ''Not Found''],
        unmarshal_weeks := decode_table
          [(''[{\"total\":3},{\"total\":4}]'',
            [\<lparr>weeklyStat.Total = 3, Week = 0, Days = []\<rparr>,
             \<lparr>weeklyStat.Total = 4, Week = 0, Days = []\<rparr>])],
        unmarshal_langs := decode_table [(''{\"Go\":100}'', [(''Go'', 100)])]\<rparr>)
     ''token'' (blank_repo\<lparr>FullName := ''octocat/hello''\<rparr>) []
   = (blank_repo\<lparr>FullName := ''octocat/hello'',
        WeeklyStats52W := [\<lparr>weeklyStat.Total = 3, Week = 0, Days = []\<rparr>,
                           \<lparr>weeklyStat.Total = 4, Week = 0, Days = []\<rparr>],
        WeeklyCommits52W := [3, 4],
        TotalCommits := 7,
        LanguageBreakdown := [(''Go'', 100)]\<rparr>,
      [Get ''https://api.github.com/repos/octocat/hello/commits?per_page=1'' ''token'',
       Get ''https://api.github.com/repos/octocat/hello/stats/commit_activity'' ''token'',
       Get ''https://api.github.com/repos/octocat/hello/languages'' ''token'',
       Get ''https://api.github.com/repos/octocat/hello/contributors?per_page=10'' ''token''])"
  using enrich_isolates_failures
    [where E = "offline_deps\<lparr>client := answers_in_turn
          [Answers 500 ''Internal Server Error'',
           Answers 200 ''[{\"total\":3},{\"total\":4}]'',
           Answers 200 ''{\"Go\":100}'',
           Answers 404 ''Not Found''],
        unmarshal_weeks := decode_table
          [(''[{\"total\":3},{\"total\":4}]'',
            [\<lparr>weeklyStat.Total = 3, Week = 0, Days = []\<rparr>,
             \<lparr>weeklyStat.Total = 4, Week = 0, Days = []\<rparr>])],
        unmarshal_langs := decode_table [(''{\"Go\":100}'', [(''Go'', 100)])]\<rparr>"
      and token = "''token''" and r = "blank_repo\<lparr>FullName := ''octocat/hello''\<rparr>"
      and tr = "[]"]
  by (simp add: eval_enrich blank_repo_def)

text \<open>
  A failure leaves no record. Two jobs on the same record differ in the first call
  alone, which fails with status 500 in one and succeeds on a repository without
  commits in the other; the three other calls succeed in both. The two jobs end in the
  same state: the same record, the same counter and the same events, progress line
  included.
\<close>

theorem job_drops_failure_counterexample:
  "snd (snd (fst (fetchLastCommit
      (offline_deps\<lparr>client := answers_in_turn
           [Answers 500 ''Internal Server Error'', Answers 200 ''[]'', Answers 200 ''{}'',
            Answers 200 ''[]''],
         unmarshal_commits := decode_table [(''[]'', [])],
         unmarshal_weeks := decode_table [(''[]'', [])],
         unmarshal_langs := decode_table [(''{}'', [])],
         unmarshal_contribs := decode_table [(''[]'', [])]\<rparr>)
      ''token'' ''octocat/hello'' [])))
   = Some (Errorf ''commits list error %d'' 500)
   \<and> job (offline_deps\<lparr>client := answers_in_turn
           [Answers 500 ''Internal Server Error'', Answers 200 ''[]'', Answers 200 ''{}'',
            Answers 200 ''[]''],
         unmarshal_commits := decode_table [(''[]'', [])],
         unmarshal_weeks := decode_table [(''[]'', [])],
         unmarshal_langs := decode_table [(''{}'', [])],
         unmarshal_contribs := decode_table [(''[]'', [])]\<rparr>)
       ''token'' 1 0
       \<lparr>out = [blank_repo\<lparr>FullName := ''octocat/hello''\<rparr>], completed = 0, trace = []\<rparr>
   = Some \<lparr>out = [blank_repo\<lparr>FullName := ''octocat/hello''\<rparr>], completed = 1,
           trace =
             [Get ''https://api.github.com/repos/octocat/hello/commits?per_page=1'' ''token'',
              Get ''https://api.github.com/repos/octocat/hello/stats/commit_activity'' ''token'',
              Get ''https://api.github.com/repos/octocat/hello/languages'' ''token'',
              Get ''https://api.github.com/repos/octocat/hello/contributors?per_page=10'' ''token'',
              Progress 1 1, Sleep 100]\<rparr>
   \<and> snd (snd (fst (fetchLastCommit
      (offline_deps\<lparr>client := answers_in_turn
           [Answers 200 ''[]'', Answers 200 ''[]'', Answers 200 ''{}'', Answers 200 ''[]''],
         unmarshal_commits := decode_table [(''[]'', [])],
         unmarshal_weeks := decode_table [(''[]'', [])],
         unmarshal_langs := decode_table [(''{}'', [])],
         unmarshal_contribs := decode_table [(''[]'', [])]\<rparr>)
      ''token'' ''octocat/hello'' [])))
   = None
   \<and> job (offline_deps\<lparr>client := answers_in_turn
           [Answers 200 ''[]'', Answers 200 ''[]'', Answers 200 ''{}'', Answers 200 ''[]''],
         unmarshal_commits := decode_table [(''[]'', [])],
         unmarshal_weeks := decode_table [(''[]'', [])],
         unmarshal_langs := decode_table [(''{}'', [])],
         unmarshal_contribs := decode_table [(''[]'', [])]\<rparr>)
       ''token'' 1 0
       \<lparr>out = [blank_repo\<lparr>FullName := ''octocat/hello''\<rparr>], completed = 0, trace = []\<rparr>
   = Some \<lparr>out = [blank_repo\<lparr>FullName := ''octocat/hello''\<rparr>], completed = 1,
           trace =
             [Get ''https://api.github.com/repos/octocat/hello/commits?per_page=1'' ''token'',
              Get ''https://api.github.com/repos/octocat/hello/stats/commit_activity'' ''token'',
              Get ''https://api.github.com/repos/octocat/hello/languages'' ''token'',
              Get ''https://api.github.com/repos/octocat/hello/contributors?per_page=10'' ''token'',
              Progress 1 1, Sleep 100]\<rparr>"
  by (simp add: job_def eval_enrich blank_repo_def offline_deps_def)

subsection \<open>Determinism of the summary\<close>

text \<open>
  C2. Fix the record list and the results of the four calls for every record. However
  many workers the pool has, whichever jobs each of them receives and in whatever order
  their writes happen, the records end the same: every record has received the four
  writes of its own job, in order. The summaries computed from two such runs at the
  same clock reading are therefore equal. The clock is the only other input of the
  summary: it fixes \<open>GeneratedAt\<close> and no other field.
\<close>

theorem summary_independent_of_schedule:
  assumes "pool_run (length rs) qs1 s1" and "pool_run (length rs) qs2 s2"
  shows "apply_writes res s1 rs
         = Some (map (\<lambda>i. foldl (\<lambda>r w. w r) (rs ! i) (job_writes (res i))) [0..<length rs])
       \<and> apply_writes res s2 rs = apply_writes res s1 rs
       \<and> map_option (aggregate E now) (apply_writes res s2 rs)
         = map_option (aggregate E now) (apply_writes res s1 rs)
       \<and> aggregate E now' enriched = (aggregate E now enriched)\<lparr>GeneratedAt := time_Format E now'\<rparr>"
  using pool_run_result[OF assms(1), of res] pool_run_result[OF assms(2), of res]
    clock_only_in_generated_at[of E now' enriched now]
  by simp

theorem summary_independent_of_schedule_witness:
  "pool_run 2 [[0, 1]] [(0, 0), (0, 1), (0, 2), (0, 3), (1, 0), (1, 1), (1, 2), (1, 3)]
   \<and> pool_run 2 [[1], [0]] [(1, 0), (0, 0), (0, 1), (1, 1), (1, 2), (0, 2), (0, 3), (1, 3)]
   \<and> apply_writes
        (\<lambda>i. \<lparr>res_last_commit = (''2024-05-01T10:00:00Z'', ''fix'', None),
              res_activity = ([], True, None),
              res_languages = ([(''Go'', 100)], None),
              res_contributors = ([], 0, Some (Errorf ''contributors error %d'' 404))\<rparr>)
        [(1, 0), (0, 0), (0, 1), (1, 1), (1, 2), (0, 2), (0, 3), (1, 3)]
        [blank_repo\<lparr>FullName := ''octocat/a''\<rparr>, blank_repo\<lparr>FullName := ''octocat/b''\<rparr>]
     = apply_writes
        (\<lambda>i. \<lparr>res_last_commit = (''2024-05-01T10:00:00Z'', ''fix'', None),
              res_activity = ([], True, None),
              res_languages = ([(''Go'', 100)], None),
              res_contributors = ([], 0, Some (Errorf ''contributors error %d'' 404))\<rparr>)
        [(0, 0), (0, 1), (0, 2), (0, 3), (1, 0), (1, 1), (1, 2), (1, 3)]
        [blank_repo\<lparr>FullName := ''octocat/a''\<rparr>, blank_repo\<lparr>FullName := ''octocat/b''\<rparr>]
   \<and> map_option (aggregate offline_deps 0)
       (apply_writes
        (\<lambda>i. \<lparr>res_last_commit = (''2024-05-01T10:00:00Z'', ''fix'', None),
              res_activity = ([], True, None),
              res_languages = ([(''Go'', 100)], None),
              res_contributors = ([], 0, Some (Errorf ''contributors error %d'' 404))\<rparr>)
        [(1, 0), (0, 0), (0, 1), (1, 1), (1, 2), (0, 2), (0, 3), (1, 3)]
        [blank_repo\<lparr>FullName := ''octocat/a''\<rparr>, blank_repo\<lparr>FullName := ''octocat/b''\<rparr>])
     = map_option (aggregate offline_deps 0)
       (apply_writes
        (\<lambda>i. \<lparr>res_last_commit = (''2024-05-01T10:00:00Z'', ''fix'', None),
              res_activity = ([], True, None),
              res_languages = ([(''Go'', 100)], None),
              res_contributors = ([], 0, Some (Errorf ''contributors error %d'' 404))\<rparr>)
        [(0, 0), (0, 1), (0, 2), (0, 3), (1, 0), (1, 1), (1, 2), (1, 3)]
        [blank_repo\<lparr>FullName := ''octocat/a''\<rparr>, blank_repo\<lparr>FullName := ''octocat/b''\<rparr>])"
proof -
  let ?s1 = "[(0, 0), (0, 1), (0, 2), (0, 3), (1, 0), (1, 1), (1, 2), (1, 3)] :: (nat \<times> nat) list"
  let ?s2 = "[(1, 0), (0, 0), (0, 1), (1, 1), (1, 2), (0, 2), (0, 3), (1, 3)] :: (nat \<times> nat) list"
  let ?rs = "[blank_repo\<lparr>FullName := ''octocat/a''\<rparr>, blank_repo\<lparr>FullName := ''octocat/b''\<rparr>]"
  have set2: "{0, Suc 0} = {0..<Suc (Suc 0)}" "{Suc 0, 0} = {0..<Suc (Suc 0)}" by auto
  have p1: "pool_run (length ?rs) [[0, 1]] ?s1"
    by (simp add: pool_run_def worker_writes_def job_steps_def interleaving.simps(2) set2)
  have p2: "pool_run (length ?rs) [[1], [0]] ?s2"
    by (simp add: pool_run_def worker_writes_def job_steps_def interleaving.simps(2) set2)
  have p1': "pool_run 2 [[0, 1]] ?s1" using p1 by (simp add: numeral_2_eq_2)
  have p2': "pool_run 2 [[1], [0]] ?s2" using p2 by (simp add: numeral_2_eq_2)
  let ?res = "\<lambda>i::nat. \<lparr>res_last_commit = (''2024-05-01T10:00:00Z'', ''fix'', None),
              res_activity = ([], True, None),
              res_languages = ([(''Go'', 100)], None),
              res_contributors = ([], 0, Some (Errorf ''contributors error %d'' 404))\<rparr>"
  have same: "apply_writes ?res ?s2 ?rs = apply_writes ?res ?s1 ?rs
        \<and> map_option (aggregate offline_deps 0) (apply_writes ?res ?s2 ?rs)
          = map_option (aggregate offline_deps 0) (apply_writes ?res ?s1 ?rs)"
    using summary_independent_of_schedule
      [OF p1 p2, where res = ?res and E = offline_deps and now = 0 and now' = 0 and enriched = "[]"]
    by blast
  show ?thesis
    using p1' p2' same by blast
qed

text \<open>
  The summary is not a function of the record list alone: the same list aggregated at
  two instants gives two summaries, which differ in \<open>GeneratedAt\<close>.
\<close>

theorem summary_depends_on_clock_counterexample:
  "aggregate
     (offline_deps\<lparr>time_Format :=
        (\<lambda>t. if t = 0 then ''2024-01-01T00:00:00Z'' else ''2024-01-01T00:00:01Z'')\<rparr>)
     0 [blank_repo\<lparr>FullName := ''octocat/hello''\<rparr>]
   \<noteq> aggregate
     (offline_deps\<lparr>time_Format :=
        (\<lambda>t. if t = 0 then ''2024-01-01T00:00:00Z'' else ''2024-01-01T00:00:01Z'')\<rparr>)
     1 [blank_repo\<lparr>FullName := ''octocat/hello''\<rparr>]"
proof
  let ?E = "offline_deps\<lparr>time_Format :=
        (\<lambda>t. if t = 0 then ''2024-01-01T00:00:00Z'' else ''2024-01-01T00:00:01Z'')\<rparr>"
  let ?rs = "[blank_repo\<lparr>FullName := ''octocat/hello''\<rparr>]"
  assume "aggregate ?E 0 ?rs = aggregate ?E 1 ?rs"
  then have "GeneratedAt (aggregate ?E 0 ?rs) = GeneratedAt (aggregate ?E 1 ?rs)"
    by simp
  then show False by (simp add: generated_at)
qed

end
